theory Spec2Isabelle
  imports Main "HOL-Library.Word"
begin

unbundle bit_operations_syntax

section \<open>Identifiers: Uid, its binary and textual codecs, P2P topic names\<close>

text \<open>
  \<^verbatim>\<open>type Uid uint64\<close>. Byte slices are lists of 8-bit words; Go strings and the
  byte slices that hold text are lists of \<^typ>\<open>char\<close> (one \<^typ>\<open>char\<close> is one byte).
  A Go \<^verbatim>\<open>error\<close> is a value of the datatype \<open>error\<close>; \<^verbatim>\<open>nil\<close> is \<open>None\<close>.
\<close>

type_synonym byte = "8 word"
type_synonym Uid = "64 word"

datatype StoreError =
  ErrInternal | ErrMalformed | ErrUserAuth | ErrUnsupported | ErrDuplicate
  | ErrNotFound | ErrCredentials | ErrPolicy | ErrPermissionDenied

datatype error =
  ErrorString string
  | CorruptInput string
  | Store StoreError

definition ZeroUid :: Uid where
  "ZeroUid = 0"

definition uidBase64Unpadded :: nat where
  "uidBase64Unpadded = 11"

definition uidBase64Padded :: nat where
  "uidBase64Padded = 12"

definition p2pBase64Unpadded :: nat where
  "p2pBase64Unpadded = 22"

definition p2pBase64Padded :: nat where
  "p2pBase64Padded = 24"

definition Uid_IsZero :: "Uid \<Rightarrow> bool" where
  "Uid_IsZero uid \<longleftrightarrow> uid = 0"

subsection \<open>\<^verbatim>\<open>encoding/binary\<close>: little-endian 64-bit values\<close>

definition PutUint64 :: "64 word \<Rightarrow> byte list" where
  "PutUint64 v =
     [ucast v, ucast (drop_bit 8 v), ucast (drop_bit 16 v), ucast (drop_bit 24 v),
      ucast (drop_bit 32 v), ucast (drop_bit 40 v), ucast (drop_bit 48 v), ucast (drop_bit 56 v)]"

text \<open>
  \<^verbatim>\<open>binary.LittleEndian.Uint64(b)\<close> reads \<open>b[0..7]\<close> and panics on a shorter slice. Every
  caller below passes a decode buffer of 9 or 18 bytes (lemma \<open>length_decBuffer\<close>), so
  the indices are always in range.
\<close>

definition Uint64 :: "byte list \<Rightarrow> 64 word" where
  "Uint64 b =
     ucast (b ! 0) OR push_bit 8 (ucast (b ! 1)) OR push_bit 16 (ucast (b ! 2))
     OR push_bit 24 (ucast (b ! 3)) OR push_bit 32 (ucast (b ! 4)) OR push_bit 40 (ucast (b ! 5))
     OR push_bit 48 (ucast (b ! 6)) OR push_bit 56 (ucast (b ! 7))"

definition Uid_MarshalBinary :: "Uid \<Rightarrow> byte list \<times> error option" where
  "Uid_MarshalBinary uid = (PutUint64 uid, None)"

definition Uid_UnmarshalBinary :: "Uid \<Rightarrow> byte list \<Rightarrow> Uid \<times> error option" where
  "Uid_UnmarshalBinary uid b =
     (if length b < 8 then (uid, Some (ErrorString ''Uid.UnmarshalBinary: invalid length''))
      else (Uint64 b, None))"

subsection \<open>\<^verbatim>\<open>encoding/base64\<close>: \<^verbatim>\<open>URLEncoding\<close> (URL-safe alphabet, padded, not strict)\<close>

text \<open>
  The Go standard library is not part of the repository; \<open>Encode\<close> and \<open>Decode\<close> below
  follow its \<^verbatim>\<open>Encoding.Encode\<close> and \<^verbatim>\<open>Encoding.Decode\<close>/\<^verbatim>\<open>decodeQuantum\<close>:
  three bytes make four characters, a tail of one or two bytes is padded with \<open>=\<close>;
  the decoder skips CR and LF, accepts padding only at the end of the last quantum,
  reports trailing garbage after the padding as an error while still counting the
  bytes of that quantum, and otherwise stops at the first bad character with the
  count of the bytes decoded before it. The offset inside \<^verbatim>\<open>CorruptInputError\<close> is not
  modelled: \<open>Decode\<close> returns the decoded bytes (their number is Go's \<open>n\<close>) and
  whether an error was returned.
\<close>

definition encodeURL :: string where
  "encodeURL = ''ABCDEFGHIJKLMNOPQRSTUVWXYZabcdefghijklmnopqrstuvwxyz0123456789-_''"

fun alphabet_index :: "string \<Rightarrow> char \<Rightarrow> nat \<Rightarrow> nat option" where
  "alphabet_index [] c i = None"
| "alphabet_index (x # xs) c i = (if x = c then Some i else alphabet_index xs c (Suc i))"

definition decodeMap :: "char \<Rightarrow> byte" where
  "decodeMap c = (case alphabet_index encodeURL c 0 of None \<Rightarrow> 0xFF | Some i \<Rightarrow> of_nat i)"

definition enc6 :: "32 word \<Rightarrow> char" where
  "enc6 v = encodeURL ! unat (v AND mask 6)"

definition EncodedLen :: "nat \<Rightarrow> nat" where
  "EncodedLen n = (n + 2) div 3 * 4"

definition DecodedLen :: "nat \<Rightarrow> nat" where
  "DecodedLen n = n div 4 * 3"

fun Encode :: "byte list \<Rightarrow> string" where
  "Encode (b0 # b1 # b2 # rest) =
     (let val = push_bit 16 (ucast b0) OR push_bit 8 (ucast b1) OR ucast b2 in
        enc6 (drop_bit 18 val) # enc6 (drop_bit 12 val) # enc6 (drop_bit 6 val) # enc6 val
        # Encode rest)"
| "Encode [b0, b1] =
     (let val = push_bit 16 (ucast b0) OR push_bit 8 (ucast b1) in
        [enc6 (drop_bit 18 val), enc6 (drop_bit 12 val), enc6 (drop_bit 6 val), CHR ''=''])"
| "Encode [b0] =
     (let val = push_bit 16 (ucast b0) in
        [enc6 (drop_bit 18 val), enc6 (drop_bit 12 val), CHR ''='', CHR ''=''])"
| "Encode [] = []"

definition isNewline :: "char \<Rightarrow> bool" where
  "isNewline c \<longleftrightarrow> c = CHR 0x0A \<or> c = CHR 0x0D"

text \<open>Four 6-bit values (missing ones are zero) to the three bytes they hold.\<close>

definition assemble :: "byte \<Rightarrow> byte \<Rightarrow> byte \<Rightarrow> byte \<Rightarrow> 32 word" where
  "assemble d0 d1 d2 d3 =
     push_bit 18 (ucast d0) OR push_bit 12 (ucast d1) OR push_bit 6 (ucast d2) OR ucast d3"

definition quantumBytes :: "byte list \<Rightarrow> byte list" where
  "quantumBytes dbuf =
     (let d = dbuf @ replicate (4 - length dbuf) 0;
          val = assemble (d ! 0) (d ! 1) (d ! 2) (d ! 3)
      in [ucast (drop_bit 16 val), ucast (drop_bit 8 val), ucast val])"

text \<open>
  The end of a quantum at a padding character, the first \<open>=\<close> already consumed: with
  two values read a second \<open>=\<close> must follow, then only CR and LF may follow.
\<close>

definition decodePadding :: "byte list \<Rightarrow> string \<Rightarrow> byte list \<times> bool" where
  "decodePadding dbuf cs =
     (let j = length dbuf in
      if j < 2 then ([], True)
      else if j = 2 then
        (case dropWhile isNewline cs of
           [] \<Rightarrow> ([], True)
         | c # cs' \<Rightarrow>
             if c \<noteq> CHR ''='' then ([], True)
             else (take (j - 1) (quantumBytes dbuf), dropWhile isNewline cs' \<noteq> []))
      else (take (j - 1) (quantumBytes dbuf), dropWhile isNewline cs \<noteq> []))"

fun decodeFrom :: "byte list \<Rightarrow> string \<Rightarrow> byte list \<times> bool" where
  "decodeFrom dbuf [] = ([], dbuf \<noteq> [])"
| "decodeFrom dbuf (c # cs) =
     (if decodeMap c \<noteq> 0xFF then
        (if length dbuf = 3 then
           (case decodeFrom [] cs of (out, err) \<Rightarrow> (quantumBytes (dbuf @ [decodeMap c]) @ out, err))
         else decodeFrom (dbuf @ [decodeMap c]) cs)
      else if isNewline c then decodeFrom dbuf cs
      else if c \<noteq> CHR ''='' then ([], True)
      else decodePadding dbuf cs)"

definition Decode :: "string \<Rightarrow> byte list \<times> bool" where
  "Decode src = decodeFrom [] src"

text \<open>The destination buffer after \<open>Decode\<close>: \<open>make([]byte, size)\<close> with the output written at its start.\<close>

definition decBuffer :: "nat \<Rightarrow> byte list \<Rightarrow> byte list" where
  "decBuffer n out = out @ replicate (n - length out) 0"

subsection \<open>Textual forms of a Uid\<close>

definition Uid_UnmarshalText :: "Uid \<Rightarrow> string \<Rightarrow> Uid \<times> error option" where
  "Uid_UnmarshalText uid src =
     (if length src \<noteq> uidBase64Unpadded then
        (uid, Some (ErrorString ''Uid.UnmarshalText: invalid length''))
      else
        (let src' = src @ replicate (uidBase64Padded - length src) (CHR ''='');
             (out, err) = Decode src';
             dec = decBuffer (DecodedLen uidBase64Padded) out
         in if length out < 8 then
              (if err then (uid, Some (CorruptInput ''Uid.UnmarshalText: failed to decode ''))
               else (uid, Some (ErrorString ''Uid.UnmarshalText: failed to decode'')))
            else (Uint64 dec, None)))"

definition Uid_MarshalText :: "Uid \<Rightarrow> string \<times> error option" where
  "Uid_MarshalText uid =
     (if uid = 0 then ([], None)
      else (take uidBase64Unpadded (Encode (PutUint64 uid)), None))"

definition Uid_String :: "Uid \<Rightarrow> string" where
  "Uid_String uid = fst (Uid_MarshalText uid)"

definition ParseUid :: "string \<Rightarrow> Uid" where
  "ParseUid s = fst (Uid_UnmarshalText 0 s)"

definition PrefixId :: "Uid \<Rightarrow> string \<Rightarrow> string" where
  "PrefixId uid prefix = (if Uid_IsZero uid then [] else prefix @ Uid_String uid)"

definition UserId :: "Uid \<Rightarrow> string" where
  "UserId uid = PrefixId uid ''usr''"

definition FndName :: "Uid \<Rightarrow> string" where
  "FndName uid = PrefixId uid ''fnd''"

definition HasPrefix :: "string \<Rightarrow> string \<Rightarrow> bool" where
  "HasPrefix s prefix \<longleftrightarrow> take (length prefix) s = prefix"

definition ParseUserId :: "string \<Rightarrow> Uid" where
  "ParseUserId s = (if HasPrefix s ''usr'' then fst (Uid_UnmarshalText 0 (drop 3 s)) else 0)"

definition P2PName :: "Uid \<Rightarrow> Uid \<Rightarrow> string" where
  "P2PName uid u2 =
     (if \<not> Uid_IsZero uid \<and> \<not> Uid_IsZero u2 then
        (let b1 = fst (Uid_MarshalBinary uid); b2 = fst (Uid_MarshalBinary u2) in
         if uid < u2 then ''p2p'' @ take p2pBase64Unpadded (Encode (b1 @ b2))
         else if uid > u2 then ''p2p'' @ take p2pBase64Unpadded (Encode (b2 @ b1))
         else [])
      else [])"

definition ParseP2P :: "string \<Rightarrow> Uid \<times> Uid \<times> error option" where
  "ParseP2P p2p =
     (if HasPrefix p2p ''p2p'' then
        (let src = drop 3 p2p in
         if length src \<noteq> p2pBase64Unpadded then (0, 0, Some (ErrorString ''ParseP2P: invalid length''))
         else
           (let src' = src @ replicate (p2pBase64Padded - length src) (CHR ''='');
                (out, err) = Decode src';
                dec = decBuffer (DecodedLen p2pBase64Padded) out
            in if length out < 16 then (0, 0, Some (ErrorString ''ParseP2P: invalid decoded length''))
               else (Uint64 dec, Uint64 (drop 8 dec), None)))
      else (0, 0, Some (ErrorString ''ParseP2P: missing or invalid prefix'')))"

section \<open>Access modes\<close>

text \<open>
  \<^verbatim>\<open>type AccessMode uint\<close>: a 64-bit unsigned word on the platforms the server is built for.
  The constants are \<^verbatim>\<open>1 << iota\<close>, so \<open>ModeUnset\<close> is \<open>0x100\<close>, the first bit above the
  eight permission bits.
\<close>

type_synonym AccessMode = "64 word"

definition ModeJoin :: AccessMode where "ModeJoin = 0x01"
definition ModeRead :: AccessMode where "ModeRead = 0x02"
definition ModeWrite :: AccessMode where "ModeWrite = 0x04"
definition ModePres :: AccessMode where "ModePres = 0x08"
definition ModeApprove :: AccessMode where "ModeApprove = 0x10"
definition ModeShare :: AccessMode where "ModeShare = 0x20"
definition ModeDelete :: AccessMode where "ModeDelete = 0x40"
definition ModeOwner :: AccessMode where "ModeOwner = 0x80"
definition ModeUnset :: AccessMode where "ModeUnset = 0x100"
definition ModeNone :: AccessMode where "ModeNone = 0"

definition ModeCPublic :: AccessMode where
  "ModeCPublic = ModeJoin OR ModeRead OR ModeWrite OR ModePres OR ModeShare"

definition ModeCSelf :: AccessMode where
  "ModeCSelf = ModeJoin OR ModeRead OR ModeDelete OR ModePres"

definition ModeCFull :: AccessMode where
  "ModeCFull = ModeJoin OR ModeRead OR ModeWrite OR ModePres OR ModeApprove OR ModeShare
               OR ModeDelete OR ModeOwner"

definition ModeCP2P :: AccessMode where
  "ModeCP2P = ModeJoin OR ModeRead OR ModeWrite OR ModePres OR ModeApprove"

definition ModeCReadOnly :: AccessMode where
  "ModeCReadOnly = ModeJoin OR ModeRead"

definition ModeCAdmin :: AccessMode where
  "ModeCAdmin = ModeOwner OR ModeApprove"

definition ModeCSharer :: AccessMode where
  "ModeCSharer = ModeCAdmin OR ModeShare"

definition ModeInvalid :: AccessMode where
  "ModeInvalid = 0x100000"

text \<open>The loop of \<open>MarshalText\<close> over \<^verbatim>\<open>modes\<close>: the character at index \<open>i\<close> is kept when bit \<open>i\<close> is set.\<close>

fun marshalModes :: "AccessMode \<Rightarrow> nat \<Rightarrow> string \<Rightarrow> string" where
  "marshalModes m i [] = []"
| "marshalModes m i (chr # modes) =
     (if m AND push_bit i 1 \<noteq> 0 then chr # marshalModes m (Suc i) modes
      else marshalModes m (Suc i) modes)"

definition AccessMode_MarshalText :: "AccessMode \<Rightarrow> string \<times> error option" where
  "AccessMode_MarshalText m =
     (if m = 0 then (''N'', None)
      else if m = ModeInvalid then ([], Some (ErrorString ''AccessMode invalid''))
      else (marshalModes m 0 ''JRWPASDO'', None))"

text \<open>
  \<^verbatim>\<open>string(b[i])\<close> converts one byte to the UTF-8 encoding of the code point of that value:
  one byte below \<open>0x80\<close>, two bytes from \<open>0x80\<close> on.
\<close>

definition string_of_byte :: "char \<Rightarrow> string" where
  "string_of_byte c =
     (let n = (of_char c :: nat) in
      if n < 0x80 then [c] else [char_of (0xC0 + n div 64), char_of (0x80 + n mod 64)])"

text \<open>
  The loop of \<open>UnmarshalText\<close>. The \<^verbatim>\<open>break\<close> in the case of \<open>N\<close> leaves the \<^verbatim>\<open>switch\<close>, not
  the loop: the characters after an \<open>N\<close> are still read.
\<close>

fun unmarshalModes :: "string \<Rightarrow> AccessMode \<Rightarrow> error + AccessMode" where
  "unmarshalModes [] m0 = Inr m0"
| "unmarshalModes (c # b) m0 =
     (if c = CHR ''J'' \<or> c = CHR ''j'' then unmarshalModes b (m0 OR ModeJoin)
      else if c = CHR ''R'' \<or> c = CHR ''r'' then unmarshalModes b (m0 OR ModeRead)
      else if c = CHR ''W'' \<or> c = CHR ''w'' then unmarshalModes b (m0 OR ModeWrite)
      else if c = CHR ''A'' \<or> c = CHR ''a'' then unmarshalModes b (m0 OR ModeApprove)
      else if c = CHR ''S'' \<or> c = CHR ''s'' then unmarshalModes b (m0 OR ModeShare)
      else if c = CHR ''D'' \<or> c = CHR ''d'' then unmarshalModes b (m0 OR ModeDelete)
      else if c = CHR ''P'' \<or> c = CHR ''p'' then unmarshalModes b (m0 OR ModePres)
      else if c = CHR ''O'' \<or> c = CHR ''o'' then unmarshalModes b (m0 OR ModeOwner)
      else if c = CHR ''N'' \<or> c = CHR ''n'' then unmarshalModes b 0
      else Inl (ErrorString (''AccessMode: invalid character '' @ [CHR 0x27] @ string_of_byte c @ [CHR 0x27])))"

text \<open>The receiver \<open>m\<close> is passed in and its value after the call is returned with the error.\<close>

definition AccessMode_UnmarshalText :: "AccessMode \<Rightarrow> string \<Rightarrow> AccessMode \<times> error option" where
  "AccessMode_UnmarshalText m b =
     (case unmarshalModes b ModeUnset of
        Inl err \<Rightarrow> (m, Some err)
      | Inr m0 \<Rightarrow> (if m0 \<noteq> ModeUnset then (m0, None) else (m, None)))"

definition AccessMode_String :: "AccessMode \<Rightarrow> string" where
  "AccessMode_String m =
     (case AccessMode_MarshalText m of (res, Some err) \<Rightarrow> [] | (res, None) \<Rightarrow> res)"

definition BetterEqual :: "AccessMode \<Rightarrow> AccessMode \<Rightarrow> bool" where
  "BetterEqual grant want \<longleftrightarrow> grant AND want = want"

definition Delta :: "AccessMode \<Rightarrow> AccessMode \<Rightarrow> string" where
  "Delta o' n =
     (let o2n = o' AND NOT n;
          removed = (if o2n > 0 then
                       (let r = AccessMode_String o2n in if r \<noteq> [] then ''-'' @ r else r)
                     else []);
          n2o = n AND NOT o';
          added = (if n2o > 0 then
                     (let a = AccessMode_String n2o in if a \<noteq> [] then ''+'' @ a else a)
                   else [])
      in added @ removed)"

definition AccessMode_IsZero :: "AccessMode \<Rightarrow> bool" where
  "AccessMode_IsZero m \<longleftrightarrow> m = 0"

definition IsInvalid :: "AccessMode \<Rightarrow> bool" where
  "IsInvalid m \<longleftrightarrow> m = ModeInvalid"

text \<open>The characters \<open>UnmarshalText\<close> accepts.\<close>

definition modeChars :: "char set" where
  "modeChars = set ''JRWPASDONjrwpasdon''"

section \<open>The user cache and its update loop\<close>

text \<open>
  Go's \<^verbatim>\<open>int\<close> is a 64-bit two's complement word: \<open>+\<close> and \<open>-\<close> wrap, comparisons are
  signed (\<open><s\<close>, \<open>\<le>s\<close>), \<open>sint\<close> reads the value.
\<close>

type_synonym int64 = "64 word"

record UserCacheEntry =
  unread :: int64
  topics :: int64

text \<open>\<^verbatim>\<open>var usersCache map[types.Uid]UserCacheEntry\<close>\<close>

type_synonym UsersCache = "Uid \<rightharpoonup> UserCacheEntry"

text \<open>
  \<^verbatim>\<open>push.Receipt\<close> and \<^verbatim>\<open>push.Recipient\<close> belong to the push package, which is not among the
  sources; the updater reads the map \<open>To\<close> and writes the field \<open>Unread\<close> of its values. The
  map is an association list with distinct keys: Go ranges over it in an unspecified order.
\<close>

record Recipient =
  Delivered :: int64
  Devices :: "string list"
  Unread :: int64

record Receipt =
  To :: "(Uid \<times> Recipient) list"
  Payload :: string

record userUpdate =
  upd_uid :: Uid
  upd_uidList :: "Uid list"
  upd_unread :: int64
  upd_inc :: bool
  upd_pushRcpt :: "Receipt option"

text \<open>
  The state the goroutine owns: the cache, whether \<^verbatim>\<open>globals.usersUpdate\<close> is still set, and
  the receipts handed to \<^verbatim>\<open>push.Push\<close> so far.
\<close>

record updaterState =
  usersCache :: UsersCache
  usersUpdateSet :: bool
  pushed :: "Receipt list"

text \<open>
  The closure \<open>unreadUpdater\<close>. \<^verbatim>\<open>store.Users.GetUnreadCount\<close> is a parameter: it returns the
  count and an error. A panic is \<open>Inl\<close> of its message.
\<close>

definition unreadUpdater ::
  "(Uid \<Rightarrow> int64 \<times> error option) \<Rightarrow> Uid \<Rightarrow> int64 \<Rightarrow> bool \<Rightarrow> UsersCache \<Rightarrow> string + (int64 \<times> UsersCache)" where
  "unreadUpdater GetUnreadCount u val inc cache =
     (case cache u of
        None \<Rightarrow> Inl ''attempt to update unread count for user who has not been loaded''
      | Some uce \<Rightarrow>
          if unread uce <s 0 then
            (case GetUnreadCount u of
               (count, Some err) \<Rightarrow> Inr (- 1, cache)
             | (count, None) \<Rightarrow> Inr (count, cache(u \<mapsto> uce\<lparr>unread := count\<rparr>)))
          else if inc then
            Inr (unread uce + val, cache(u \<mapsto> uce\<lparr>unread := unread uce + val\<rparr>))
          else
            Inr (val, cache(u \<mapsto> uce\<lparr>unread := val\<rparr>)))"

text \<open>The loop over \<^verbatim>\<open>upd.pushRcpt.To\<close>.\<close>

fun pushLoop ::
  "(Uid \<Rightarrow> int64 \<times> error option) \<Rightarrow> (Uid \<times> Recipient) list \<Rightarrow> UsersCache
     \<Rightarrow> string + ((Uid \<times> Recipient) list \<times> UsersCache)" where
  "pushLoop GetUnreadCount [] cache = Inr ([], cache)"
| "pushLoop GetUnreadCount ((u, rcptTo) # rest) cache =
     (case unreadUpdater GetUnreadCount u 1 True cache of
        Inl p \<Rightarrow> Inl p
      | Inr (n, cache') \<Rightarrow>
          (case pushLoop GetUnreadCount rest cache' of
             Inl p \<Rightarrow> Inl p
           | Inr (to', cache'') \<Rightarrow>
               Inr ((u, if 0 \<le>s n then rcptTo\<lparr>Unread := n\<rparr> else rcptTo) # to', cache'')))"

text \<open>
  The body of the loop over \<^verbatim>\<open>upd.uidList\<close>. Reading a missing key gives the zero entry and
  \<open>ok = false\<close>.
\<close>

definition membershipOne :: "bool \<Rightarrow> Uid \<Rightarrow> UsersCache \<Rightarrow> string + UsersCache" where
  "membershipOne inc u cache =
     (let (uce, ok) = (case cache u of
                         None \<Rightarrow> (\<lparr>unread = 0, topics = 0\<rparr>, False)
                       | Some e \<Rightarrow> (e, True))
      in if inc then
           (let uce1 = (if \<not> ok then uce\<lparr>unread := - 1\<rparr> else uce);
                uce2 = uce1\<lparr>topics := topics uce1 + 1\<rparr>
            in Inr (cache(u \<mapsto> uce2)))
         else if ok then
           (if 1 <s topics uce then Inr (cache(u \<mapsto> uce\<lparr>topics := topics uce - 1\<rparr>))
            else Inr (cache(u := None)))
         else Inl ''request to unregister user which has not been registered'')"

fun membershipLoop :: "bool \<Rightarrow> Uid list \<Rightarrow> UsersCache \<Rightarrow> string + UsersCache" where
  "membershipLoop inc [] cache = Inr cache"
| "membershipLoop inc (u # rest) cache =
     (case membershipOne inc u cache of
        Inl p \<Rightarrow> Inl p
      | Inr cache' \<Rightarrow> membershipLoop inc rest cache')"

datatype loopStep = Panic string | Break updaterState | Continue updaterState

text \<open>One iteration of \<^verbatim>\<open>for upd := range globals.usersUpdate\<close>; \<open>None\<close> is the \<^verbatim>\<open>nil\<close> update.\<close>

definition userUpdater_step ::
  "(Uid \<Rightarrow> int64 \<times> error option) \<Rightarrow> userUpdate option \<Rightarrow> updaterState \<Rightarrow> loopStep" where
  "userUpdater_step GetUnreadCount upd st =
     (case upd of
        None \<Rightarrow> Break (st\<lparr>usersUpdateSet := False\<rparr>)
      | Some upd \<Rightarrow>
          (case upd_pushRcpt upd of
             Some rcpt \<Rightarrow>
               (case pushLoop GetUnreadCount (To rcpt) (usersCache st) of
                  Inl p \<Rightarrow> Panic p
                | Inr (to', cache') \<Rightarrow>
                    Continue (st\<lparr>usersCache := cache', pushed := pushed st @ [rcpt\<lparr>To := to'\<rparr>]\<rparr>))
           | None \<Rightarrow>
               if length (upd_uidList upd) > 0 then
                 (case membershipLoop (upd_inc upd) (upd_uidList upd) (usersCache st) of
                    Inl p \<Rightarrow> Panic p
                  | Inr cache' \<Rightarrow> Continue (st\<lparr>usersCache := cache'\<rparr>))
               else
                 (case unreadUpdater GetUnreadCount (upd_uid upd) (upd_unread upd) (upd_inc upd) (usersCache st) of
                    Inl p \<Rightarrow> Panic p
                  | Inr (n, cache') \<Rightarrow> Continue (st\<lparr>usersCache := cache'\<rparr>))))"

text \<open>
  The loop on the updates queued in the channel: it ends at a panic or at the \<^verbatim>\<open>nil\<close> update,
  and waits (\<open>Continue\<close>) when the queue is empty.
\<close>

fun userUpdater ::
  "(Uid \<Rightarrow> int64 \<times> error option) \<Rightarrow> userUpdate option list \<Rightarrow> updaterState \<Rightarrow> loopStep" where
  "userUpdater GetUnreadCount [] st = Continue st"
| "userUpdater GetUnreadCount (upd # rest) st =
     (case userUpdater_step GetUnreadCount upd st of
        Panic p \<Rightarrow> Panic p
      | Break st' \<Rightarrow> Break st'
      | Continue st' \<Rightarrow> userUpdater GetUnreadCount rest st')"

text \<open>
  The invariant of the cache: every entry present counts at least one topic. \<open>topics_room k\<close>
  says that \<open>k\<close> more increments do not overflow the 64-bit counter of any entry.
\<close>

definition cache_inv :: "UsersCache \<Rightarrow> bool" where
  "cache_inv cache \<longleftrightarrow> (\<forall>u e. cache u = Some e \<longrightarrow> 0 <s topics e)"

definition topics_room :: "nat \<Rightarrow> UsersCache \<Rightarrow> bool" where
  "topics_room k cache \<longleftrightarrow>
     int k < 2 ^ 63 \<and> (\<forall>u e. cache u = Some e \<longrightarrow> sint (topics e) + int k < 2 ^ 63)"

section \<open>Credentials: the persistence contract, validators, \<open>updateCreds\<close>\<close>

text \<open>
  The store adapter and the validator registry are not among the sources. Their operations
  are fields of the records below, functions of an abstract database state \<open>'db\<close>: a read
  returns its results, a write returns its error and the new state. A Go result
  \<^verbatim>\<open>(value, error)\<close> is a pair whose second component is \<open>None\<close> for \<^verbatim>\<open>nil\<close>.
  \<^verbatim>\<open>types.Credential\<close> has the fields the code reads.
\<close>

record Credential =
  Method :: string
  Value :: string
  Resp :: string
  Retries :: int64

record MsgCredClient =
  cr_Method :: string
  cr_Value :: string
  cr_Response :: string
  cr_Params :: string

datatype Level = LevelNone | LevelAnon | LevelAuth | LevelRoot

record 'db UsersStore =
  GetActiveCred :: "Uid \<Rightarrow> string \<Rightarrow> 'db \<Rightarrow> Credential option \<times> error option"
  ConfirmCred :: "Uid \<Rightarrow> string \<Rightarrow> 'db \<Rightarrow> error option \<times> 'db"
  FailCred :: "Uid \<Rightarrow> string \<Rightarrow> 'db \<Rightarrow> error option \<times> 'db"
  GetAllCreds :: "Uid \<Rightarrow> bool \<Rightarrow> 'db \<Rightarrow> Credential list \<times> error option"
  UpdateTags :: "Uid \<Rightarrow> string list \<Rightarrow> string list \<Rightarrow> string list \<Rightarrow> 'db \<Rightarrow> error option \<times> 'db"

subsection \<open>The \<open>tel\<close> validator\<close>

definition validatorName :: string where
  "validatorName = ''tel''"

record validator =
  DebugResponse :: string
  MaxRetries :: int64

definition tel_Init :: "validator \<Rightarrow> validator \<times> error option" where
  "tel_Init v = (v\<lparr>MaxRetries := 1000, DebugResponse := ''123456''\<rparr>, None)"

definition tel_Check ::
  "'db UsersStore \<Rightarrow> validator \<Rightarrow> Uid \<Rightarrow> string \<Rightarrow> 'db \<Rightarrow> (string \<times> error option) \<times> 'db" where
  "tel_Check store v user resp db =
     (case GetActiveCred store user validatorName db of
        (cred, Some err) \<Rightarrow> (([], Some err), db)
      | (None, None) \<Rightarrow> (([], Some (Store ErrNotFound)), db)
      | (Some cred, None) \<Rightarrow>
          if MaxRetries v <s Retries cred then (([], Some (Store ErrPolicy)), db)
          else if resp = [] then (([], Some (Store ErrCredentials)), db)
          else if Resp cred = resp \<or> DebugResponse v = resp then
            (case ConfirmCred store user validatorName db of
               (err, db') \<Rightarrow> ((Value cred, err), db'))
          else
            (case FailCred store user validatorName db of
               (err, db') \<Rightarrow> (([], Some (Store ErrCredentials)), db')))"

subsection \<open>\<open>updateCreds\<close>\<close>

text \<open>
  A validator as \<open>updateCreds\<close> and \<open>addCreds\<close> call it, and the globals they read.
  \<^verbatim>\<open>store.GetValidator\<close> returns \<^verbatim>\<open>nil\<close> (\<open>None\<close>) for an unknown method; calling a method of a
  \<^verbatim>\<open>nil\<close> interface panics.
\<close>

record 'db Validator =
  PreCheck :: "string \<Rightarrow> string \<Rightarrow> error option"
  Request :: "Uid \<Rightarrow> string \<Rightarrow> string \<Rightarrow> string \<Rightarrow> string \<Rightarrow> 'db \<Rightarrow> error option \<times> 'db"
  Check :: "Uid \<Rightarrow> string \<Rightarrow> 'db \<Rightarrow> (string \<times> error option) \<times> 'db"

record 'db Globals =
  authValidators :: "Level \<Rightarrow> string list"
  addToTags :: "string \<Rightarrow> bool"
  GetValidator :: "string \<Rightarrow> 'db Validator option"
  normalizeCredentials :: "MsgCredClient list \<Rightarrow> bool \<Rightarrow> MsgCredClient list"

text \<open>
  \<^verbatim>\<open>var methods map[string]int\<close> declares a \<^verbatim>\<open>nil\<close> map: \<open>None\<close>. Reading a \<^verbatim>\<open>nil\<close> map gives
  zero, ranging over it makes no iteration, assigning to an entry panics. A map that was
  made is \<open>Some\<close> of an association list with distinct keys.
\<close>

type_synonym methodCounts = "(string \<times> int64) list option"

definition mapRead :: "methodCounts \<Rightarrow> string \<Rightarrow> int64" where
  "mapRead m k = (case m of None \<Rightarrow> 0 | Some al \<Rightarrow> (case map_of al k of None \<Rightarrow> 0 | Some n \<Rightarrow> n))"

definition mapAssign :: "methodCounts \<Rightarrow> string \<Rightarrow> int64 \<Rightarrow> string + methodCounts" where
  "mapAssign m k n =
     (case m of
        None \<Rightarrow> Inl ''assignment to entry in nil map''
      | Some al \<Rightarrow> Inr (Some ((k, n) # filter (\<lambda>p. fst p \<noteq> k) al)))"

definition mapRange :: "methodCounts \<Rightarrow> (string \<times> int64) list" where
  "mapRange m = (case m of None \<Rightarrow> [] | Some al \<Rightarrow> al)"

text \<open>\<^verbatim>\<open>for _, cred := range alreadyValidatedCreds { methods[cred.Method]++ }\<close>\<close>

fun indexMethods :: "Credential list \<Rightarrow> methodCounts \<Rightarrow> string + methodCounts" where
  "indexMethods [] methods = Inr methods"
| "indexMethods (cred # rest) methods =
     (case mapAssign methods (Method cred) (mapRead methods (Method cred) + 1) of
        Inl p \<Rightarrow> Inl p
      | Inr methods' \<Rightarrow> indexMethods rest methods')"

text \<open>
  The loop over the supplied credentials. Its state is the count map, the two tag lists and
  the database; it ends with a panic (\<open>Inl\<close>), with an early \<^verbatim>\<open>return nil, err\<close> (\<open>Inr (Inl err)\<close>)
  or with the state after the last credential.
\<close>

fun checkCreds ::
  "'db Globals \<Rightarrow> Uid \<Rightarrow> MsgCredClient list \<Rightarrow> methodCounts \<times> string list \<times> string list \<times> 'db
     \<Rightarrow> string + ((error \<times> 'db) + (methodCounts \<times> string list \<times> string list \<times> 'db))" where
  "checkCreds g user [] st = Inr (Inr st)"
| "checkCreds g user (cr # rest) (methods, tagsToAdd, tagsToRemove, db) =
     (if cr_Response cr = [] then checkCreds g user rest (methods, tagsToAdd, tagsToRemove, db)
      else
        (case GetValidator g (cr_Method cr) of
           None \<Rightarrow> Inl ''invalid memory address or nil pointer dereference''
         | Some vld \<Rightarrow>
             (case Check vld user (cr_Response cr) db of
                ((val, Some err), db') \<Rightarrow>
                  if err = Store ErrCredentials
                  then checkCreds g user rest (methods, tagsToAdd, tagsToRemove, db')
                  else Inr (Inl (err, db'))
              | ((val, None), db') \<Rightarrow>
                  if val \<noteq> [] then
                    (case mapAssign methods (cr_Method cr) (mapRead methods (cr_Method cr) + 1) of
                       Inl p \<Rightarrow> Inl p
                     | Inr methods' \<Rightarrow>
                         checkCreds g user rest
                           (methods',
                            if addToTags g (cr_Method cr) then tagsToAdd @ [cr_Method cr @ '':'' @ val]
                            else tagsToAdd,
                            tagsToRemove, db'))
                  else
                    (case mapAssign methods (cr_Method cr) (mapRead methods (cr_Method cr) - 1) of
                       Inl p \<Rightarrow> Inl p
                     | Inr methods' \<Rightarrow>
                         checkCreds g user rest
                           (methods', tagsToAdd,
                            if addToTags g (cr_Method cr) then tagsToRemove @ [cr_Method cr @ '':'' @ val]
                            else tagsToRemove,
                            db')))))"

text \<open>\<^verbatim>\<open>for method, count := range methods { if count > 0 { validated = append(validated, method) } }\<close>\<close>

definition validatedMethods :: "methodCounts \<Rightarrow> string list" where
  "validatedMethods methods = map fst (filter (\<lambda>p. 0 <s snd p) (mapRange methods))"

definition updateCreds ::
  "'db Globals \<Rightarrow> 'db UsersStore \<Rightarrow> Uid \<Rightarrow> Level \<Rightarrow> MsgCredClient list \<Rightarrow> 'db
     \<Rightarrow> string + ((string list \<times> error option) \<times> 'db)" where
  "updateCreds g store user authLvl creds db =
     (if length (authValidators g authLvl) = 0 then Inr (([], Some (Store ErrUnsupported)), db)
      else if length creds = 0 then Inr (([], None), db)
      else
        (case GetAllCreds store user True db of
           (alreadyValidatedCreds, Some err) \<Rightarrow> Inr (([], Some err), db)
         | (alreadyValidatedCreds, None) \<Rightarrow>
             (case indexMethods alreadyValidatedCreds None of
                Inl p \<Rightarrow> Inl p
              | Inr methods \<Rightarrow>
                  (case checkCreds g user (normalizeCredentials g creds False) (methods, [], [], db) of
                     Inl p \<Rightarrow> Inl p
                   | Inr (Inl (err, db')) \<Rightarrow> Inr (([], Some err), db')
                   | Inr (Inr (methods', tagsToAdd, tagsToRemove, db')) \<Rightarrow>
                       if length tagsToAdd > 0 \<or> length tagsToRemove > 0 then
                         (case UpdateTags store user tagsToAdd tagsToRemove [] db' of
                            (Some err, db'') \<Rightarrow> Inr (([], Some err), db'')
                          | (None, db'') \<Rightarrow> Inr ((validatedMethods methods', None), db''))
                       else Inr ((validatedMethods methods', None), db')))))"

section \<open>Video calls of a topic\<close>

definition constCallEventInvite :: string where "constCallEventInvite = ''invite''"
definition constCallEventRinging :: string where "constCallEventRinging = ''ringing''"
definition constCallEventAccept :: string where "constCallEventAccept = ''accept''"
definition constCallEventOffer :: string where "constCallEventOffer = ''offer''"
definition constCallEventAnswer :: string where "constCallEventAnswer = ''answer''"
definition constCallEventIceCandidate :: string where "constCallEventIceCandidate = ''ice-candidate''"
definition constCallEventHangUp :: string where "constCallEventHangUp = ''hang-up''"
definition constCallMsgAccepted :: string where "constCallMsgAccepted = ''accepted''"
definition constCallMsgFinished :: string where "constCallMsgFinished = ''finished''"
definition constCallMsgDisconnected :: string where "constCallMsgDisconnected = ''disconnected''"
definition constTinodeVideoCallMimeType :: string where
  "constTinodeVideoCallMimeType = ''application/x-tinode-webrtc''"

text \<open>The timeout in seconds.\<close>

definition constCallEstablishmentTimeout :: nat where
  "constCallEstablishmentTimeout = 15"

text \<open>
  A \<^verbatim>\<open>*Session\<close> is \<open>None\<close> for \<^verbatim>\<open>nil\<close> and \<open>Some n\<close> for the session \<open>n\<close>. The session of a
  client message is never \<^verbatim>\<open>nil\<close> (the handlers dereference it unconditionally), so a
  message carries a session number. The map \<open>parties\<close> is an association list with distinct
  keys; where the code ranges over it, taking the first entry that fits, the model takes the
  first in the list, one of the orders Go may choose.
\<close>

type_synonym SessionPtr = "nat option"

record callPartyData =
  party_uid :: Uid
  isOriginator :: bool

record videoCall =
  parties :: "(SessionPtr \<times> callPartyData) list"
  call_seq :: int64

datatype TopicCat = TopicCatMe | TopicCatFnd | TopicCatP2P | TopicCatGrp

text \<open>A \<^verbatim>\<open>time.Timer\<close>: \<open>Reset d\<close> arms it for \<open>d\<close>, \<open>Stop\<close> stops it.\<close>

datatype Timer = Stopped | Armed nat

record MsgClientNote =
  note_SeqId :: int64
  note_Event :: string
  note_Payload :: string

record ClientComMessage =
  msg_sess :: nat
  AsUser :: string
  Original :: string
  RcptTo :: string
  Timestamp :: nat
  Note :: MsgClientNote

record MsgServerInfo =
  info_What :: string
  info_Event :: string
  info_SeqId :: int64
  info_From :: string
  info_Topic :: string
  info_Payload :: string

record msgHead =
  mime :: string
  replace :: string

datatype outMsg = ErrCallBusyReply | ErrPermissionDeniedCallReply | InfoMsg MsgServerInfo

text \<open>
  What a handler does to the world outside the topic, in order: messages queued to a session,
  the fan-out \<open>infoCallSubsOffline\<close>, \<open>saveAndBroadcastMessage\<close>, \<open>broadcastToSessions\<close>, log lines.
\<close>

datatype effect =
  QueueOut nat outMsg
  | InfoCallSubsOffline string Uid string int64 string "nat option" bool
  | SaveAndBroadcast ClientComMessage Uid bool msgHead string
  | BroadcastToSessions MsgServerInfo
  | LogWarn string
  | LogErr string

record Topic =
  topic_name :: string
  cat :: TopicCat
  lastID :: int64
  perUser :: "Uid list"
  currentCall :: "videoCall option"
  callEstablishmentTimer :: Timer
  effects :: "effect list"

text \<open>
  The methods of \<open>Topic\<close> that are not among the sources are parameters.
  \<open>saveAndBroadcastMessage\<close> returns its error and the \<open>lastID\<close> of the topic afterwards; it is
  taken to change nothing else of the state modelled here, in particular neither
  \<open>currentCall\<close> (the callers read \<open>t.currentCall\<close> after it) nor the timer.
\<close>

record topicEnv =
  saveAndBroadcastMessage :: "Topic \<Rightarrow> ClientComMessage \<Rightarrow> Uid \<Rightarrow> bool \<Rightarrow> msgHead \<Rightarrow> string \<Rightarrow> error option \<times> int64"
  p2pOtherUser :: "Topic \<Rightarrow> Uid \<Rightarrow> Uid"
  original :: "Topic \<Rightarrow> Uid \<Rightarrow> string"
  isInactive :: "Topic \<Rightarrow> bool"
  TimeNow :: nat

text \<open>\<^verbatim>\<open>strconv.Itoa\<close>\<close>

function natToDec :: "nat \<Rightarrow> string" where
  "natToDec n = (if n < 10 then [char_of (48 + n)] else natToDec (n div 10) @ [char_of (48 + n mod 10)])"
  by pat_completeness auto
termination
  by (relation "measure id") auto

definition Itoa :: "int64 \<Rightarrow> string" where
  "Itoa i = (if sint i < 0 then ''-'' @ natToDec (nat (- sint i)) else natToDec (nat (sint i)))"

definition messageHead :: "videoCall \<Rightarrow> msgHead" where
  "messageHead call = \<lparr>mime = constTinodeVideoCallMimeType, replace = '':'' @ Itoa (call_seq call)\<rparr>"

definition infoMessage :: "videoCall \<Rightarrow> string \<Rightarrow> MsgServerInfo" where
  "infoMessage call event =
     \<lparr>info_What = ''call'', info_Event = event, info_SeqId = call_seq call,
      info_From = [], info_Topic = [], info_Payload = []\<rparr>"

definition getCallOriginator :: "Topic \<Rightarrow> Uid \<times> SessionPtr" where
  "getCallOriginator t =
     (case currentCall t of
        None \<Rightarrow> (ZeroUid, None)
      | Some call \<Rightarrow>
          (case find (\<lambda>(sess, p). isOriginator p) (parties call) of
             Some (sess, p) \<Rightarrow> (party_uid p, sess)
           | None \<Rightarrow> (ZeroUid, None)))"

definition addEffects :: "effect list \<Rightarrow> Topic \<Rightarrow> Topic" where
  "addEffects es t = t\<lparr>effects := effects t @ es\<rparr>"

definition handleCallInvite :: "topicEnv \<Rightarrow> ClientComMessage \<Rightarrow> Uid \<Rightarrow> Topic \<Rightarrow> Topic" where
  "handleCallInvite env msg asUid t =
     (if currentCall t \<noteq> None then addEffects [QueueOut (msg_sess msg) ErrCallBusyReply] t
      else if cat t \<noteq> TopicCatP2P then addEffects [QueueOut (msg_sess msg) ErrPermissionDeniedCallReply] t
      else
        (let tgt = p2pOtherUser env t asUid;
             t1 = addEffects [InfoCallSubsOffline (AsUser msg) tgt constCallEventInvite (lastID t) []
                                (Some (msg_sess msg)) False] t
         in t1\<lparr>currentCall :=
                  Some \<lparr>parties = [(Some (msg_sess msg), \<lparr>party_uid = asUid, isOriginator = True\<rparr>)],
                        call_seq = lastID t\<rparr>,
                callEstablishmentTimer := Armed constCallEstablishmentTimeout\<rparr>))"

definition maybeEndCallInProgress :: "topicEnv \<Rightarrow> string \<Rightarrow> ClientComMessage \<Rightarrow> Topic \<Rightarrow> Topic" where
  "maybeEndCallInProgress env from msg t =
     (case currentCall t of
        None \<Rightarrow> t
      | Some call \<Rightarrow>
          (let t1 = t\<lparr>callEstablishmentTimer := Stopped\<rparr>;
               originator = fst (getCallOriginator t1);
               replaceWith = (if from \<noteq> [] \<and> length (parties call) = 2 then constCallMsgFinished
                              else constCallMsgDisconnected);
               head = messageHead call;
               msgCopy = msg\<lparr>AsUser := UserId originator\<rparr>;
               (err, lastID') = saveAndBroadcastMessage env t1 msgCopy originator False head replaceWith;
               t2 = addEffects
                      (SaveAndBroadcast msgCopy originator False head replaceWith
                       # (case err of None \<Rightarrow> []
                          | Some e \<Rightarrow> [LogErr ''failed to write finalizing message for call'']))
                      (t1\<lparr>lastID := lastID'\<rparr>);
               resp = infoMessage call constCallEventHangUp;
               t3 = addEffects [BroadcastToSessions resp] t2;
               t4 = addEffects
                      (map (\<lambda>tgt. InfoCallSubsOffline from tgt constCallEventHangUp (call_seq call) [] None True)
                         (perUser t3))
                      t3
           in t4\<lparr>currentCall := None\<rparr>))"

definition terminateCallInProgress :: "topicEnv \<Rightarrow> Topic \<Rightarrow> Topic" where
  "terminateCallInProgress env t =
     (case currentCall t of
        None \<Rightarrow> t
      | Some call \<Rightarrow>
          (case getCallOriginator t of
             (u, None) \<Rightarrow>
               (addEffects [LogWarn ''video call has no originator. Terminating.''] t)\<lparr>currentCall := None\<rparr>
           | (u, Some sess) \<Rightarrow>
               if Uid_IsZero u then
                 (addEffects [LogWarn ''video call has no originator. Terminating.''] t)\<lparr>currentCall := None\<rparr>
               else
                 (let dummy = \<lparr>msg_sess = sess, AsUser = UserId u, Original = original env t u,
                               RcptTo = UserId u, Timestamp = TimeNow env,
                               Note = \<lparr>note_SeqId = 0, note_Event = [], note_Payload = []\<rparr>\<rparr>
                  in maybeEndCallInProgress env [] dummy t)))"

text \<open>\<open>handleCallEvent\<close>; \<open>perUser\<close> is looked up at the Uid parsed from \<open>msg.AsUser\<close>.\<close>

definition handleCallEvent :: "topicEnv \<Rightarrow> ClientComMessage \<Rightarrow> Topic \<Rightarrow> Topic" where
  "handleCallEvent env msg t =
     (case currentCall t of
        None \<Rightarrow> t
      | Some cur \<Rightarrow>
          if isInactive env t then t
          else
            (let call = Note msg in
             if call_seq cur \<noteq> note_SeqId call then t
             else
               (let asUid = ParseUserId (AsUser msg) in
                if asUid \<notin> set (perUser t) then t
                else if note_Event call = constCallEventRinging \<or> note_Event call = constCallEventAccept then
                  (if length (parties cur) \<noteq> 1 then t
                   else
                     (case getCallOriginator t of
                        (originatorUid, None) \<Rightarrow>
                          terminateCallInProgress env
                            (addEffects [LogWarn ''video call has no originator. Terminating.''] t)
                      | (originatorUid, Some originator) \<Rightarrow>
                          if originator = msg_sess msg \<or> originatorUid = asUid then t
                          else
                            (let forwardMsg = (infoMessage cur (note_Event call))
                                   \<lparr>info_From := AsUser msg, info_Topic := original env t originatorUid\<rparr>
                             in if note_Event call = constCallEventAccept then
                                  (let replaceWith = constCallMsgAccepted;
                                       head = messageHead cur;
                                       msgCopy = msg\<lparr>AsUser := UserId originatorUid\<rparr>;
                                       (err, lastID') = saveAndBroadcastMessage env t msgCopy originatorUid
                                                          False head replaceWith;
                                       t1 = addEffects [SaveAndBroadcast msgCopy originatorUid False head replaceWith]
                                              (t\<lparr>lastID := lastID'\<rparr>)
                                   in case err of
                                        Some e \<Rightarrow> t1
                                      | None \<Rightarrow>
                                          (let t2 = t1\<lparr>currentCall :=
                                                          Some (cur\<lparr>parties :=
                                                                  filter (\<lambda>p. fst p \<noteq> Some (msg_sess msg)) (parties cur)
                                                                  @ [(Some (msg_sess msg),
                                                                      \<lparr>party_uid = asUid, isOriginator = False\<rparr>)]\<rparr>)\<rparr>;
                                               t3 = addEffects
                                                      [InfoCallSubsOffline (AsUser msg) asUid (note_Event call)
                                                         (lastID t2) (note_Payload call) (Some (msg_sess msg)) False]
                                                      t2;
                                               t4 = t3\<lparr>callEstablishmentTimer := Stopped\<rparr>
                                           in addEffects [QueueOut originator (InfoMsg forwardMsg)] t4))
                                else addEffects [QueueOut originator (InfoMsg forwardMsg)] t)))
                else if note_Event call = constCallEventOffer \<or> note_Event call = constCallEventAnswer
                        \<or> note_Event call = constCallEventIceCandidate then
                  (case find (\<lambda>(sess, p). sess \<noteq> Some (msg_sess msg)) (parties cur) of
                     None \<Rightarrow> t
                   | Some (None, p) \<Rightarrow> t
                   | Some (Some otherEnd, p) \<Rightarrow>
                       (let forwardMsg = (infoMessage cur (note_Event call))
                              \<lparr>info_From := AsUser msg, info_Topic := original env t (party_uid p),
                               info_Payload := note_Payload call\<rparr>
                        in addEffects [QueueOut otherEnd (InfoMsg forwardMsg)] t))
                else if note_Event call = constCallEventHangUp then
                  maybeEndCallInProgress env (AsUser msg) msg t
                else addEffects [LogWarn ''video call received unexpected call event''] t)))"

section \<open>Account creation\<close>

text \<open>
  The messages, the session, the authenticators, the store and the reply constructors are
  not among the sources. The records have the fields \<open>replyCreateUser\<close> reads; a value of an
  interface type (\<open>Public\<close>, \<open>Private\<close>) is an optional string; each reply helper is a
  constructor of \<open>ServerComMessage\<close> with the arguments the code passes to it.
\<close>

record MsgDefaultAcsMode =
  acs_Auth :: string
  acs_Anon :: string

record MsgSetDesc =
  DefaultAcs :: "MsgDefaultAcsMode option"
  desc_Public :: "string option"
  desc_Private :: "string option"

record MsgClientAcc =
  acc_Id :: string
  acc_Scheme :: string
  acc_Secret :: string
  acc_Login :: bool
  acc_Tags :: "string list"
  acc_Desc :: "MsgSetDesc option"
  acc_Cred :: "MsgCredClient list"

record AccMessage =
  msg_id :: string
  msg_timestamp :: nat
  Acc :: MsgClientAcc

record auth_Rec =
  rec_Uid :: Uid
  rec_AuthLevel :: Level
  rec_Tags :: "string list"
  rec_Lifetime :: nat
  rec_Features :: nat

record DefaultAccess =
  da_Auth :: AccessMode
  da_Anon :: AccessMode

record User =
  user_id :: Uid
  user_Tags :: "string list"
  Access :: DefaultAccess
  user_Public :: "string option"
  CreatedAt :: nat
  UpdatedAt :: nat

record Session =
  sess_uid :: Uid
  sess_sid :: string
  sess_lang :: string
  sess_authLvl :: Level

record MsgTopicDesc =
  td_CreatedAt :: nat
  td_UpdatedAt :: nat
  td_DefaultAcs :: MsgDefaultAcsMode
  td_Public :: "string option"
  td_Private :: "string option"

datatype paramValue = PString string | PStrings "string list" | PDesc MsgTopicDesc

type_synonym params = "(string \<times> paramValue) list"

datatype ServerComMessage =
  ErrAlreadyAuthenticatedReply string nat
  | ErrMalformedReply string nat
  | ErrPermissionDeniedReply string nat params
  | ErrUnknownReply string nat
  | decodeStoreError "error option" string nat params
  | NoErrCreatedReply string nat params
  | onLoginReply string nat auth_Rec "string list" params

record 'db AuthHandler =
  IsUnique :: "string \<Rightarrow> 'db \<Rightarrow> bool \<times> error option"
  AddRecord :: "auth_Rec \<Rightarrow> string \<Rightarrow> 'db \<Rightarrow> (auth_Rec \<times> error option) \<times> 'db"
  GenSecret :: "auth_Rec \<Rightarrow> string \<times> nat \<times> error option"

record 'db AccountEnv =
  GetLogicalAuthHandler :: "string \<Rightarrow> 'db AuthHandler option"
  normalizeTags :: "string list \<Rightarrow> string list"
  restrictedTagsEqual :: "string list \<Rightarrow> string list \<Rightarrow> string list \<Rightarrow> bool"
  immutableTagNS :: "string list"
  getDefaultAccess :: "TopicCat \<Rightarrow> bool \<Rightarrow> AccessMode"
  isNullValue :: "string option \<Rightarrow> bool"
  Users_Create :: "User \<Rightarrow> string option \<Rightarrow> 'db \<Rightarrow> (User \<times> error option) \<times> 'db"
  Users_Delete :: "Uid \<Rightarrow> bool \<Rightarrow> 'db \<Rightarrow> error option \<times> 'db"
  stringSliceDelta :: "string list \<Rightarrow> string list \<Rightarrow> string list \<times> string list"
  credentialMethods :: "MsgCredClient list \<Rightarrow> string list"
  onLogin :: "Session \<Rightarrow> auth_Rec \<Rightarrow> Session"

text \<open>
  What \<open>replyCreateUser\<close> changes: the database, the outbound queue of the session
  (\<open>s.queueOut\<close>), the session itself (through \<open>s.onLogin\<close>) and the calls of the plugin hook.
\<close>

record 'db world =
  w_db :: 'db
  w_queueOut :: "ServerComMessage list"
  w_sess :: Session
  w_pluginAccount :: "(User \<times> string) list"

definition plgActCreate :: string where
  "plgActCreate = ''C''"

definition FeatureNoLogin :: nat where
  "FeatureNoLogin = 2"

text \<open>\<open>time.Hour * 24\<close> in seconds.\<close>

definition tmpTokenLifetime :: nat where
  "tmpTokenLifetime = 24 * 3600"

definition reply :: "ServerComMessage \<Rightarrow> 'db world \<Rightarrow> 'db world" where
  "reply m w = w\<lparr>w_queueOut := w_queueOut w @ [m]\<rparr>"

subsection \<open>\<open>addCreds\<close>\<close>

fun addCredsLoop ::
  "'db Globals \<Rightarrow> Uid \<Rightarrow> string \<Rightarrow> string \<Rightarrow> MsgCredClient list \<Rightarrow> string list \<times> string list \<times> 'db
     \<Rightarrow> (error \<times> 'db) + (string list \<times> string list \<times> 'db)" where
  "addCredsLoop g user lng tmpToken [] st = Inr st"
| "addCredsLoop g user lng tmpToken (cr # rest) (validated, tags, d) =
     (case GetValidator g (cr_Method cr) of
        None \<Rightarrow> addCredsLoop g user lng tmpToken rest (validated, tags, d)
      | Some vld \<Rightarrow>
          (case Request vld user (cr_Value cr) lng (cr_Response cr) tmpToken d of
             (Some err, d') \<Rightarrow> Inl (err, d')
           | (None, d') \<Rightarrow>
               if cr_Response cr \<noteq> [] then
                 addCredsLoop g user lng tmpToken rest
                   (validated @ [cr_Method cr],
                    if addToTags g (cr_Method cr) then tags @ [cr_Method cr @ '':'' @ cr_Value cr] else tags,
                    d')
               else addCredsLoop g user lng tmpToken rest (validated, tags, d')))"

definition addCreds ::
  "'db Globals \<Rightarrow> 'db UsersStore \<Rightarrow> Uid \<Rightarrow> MsgCredClient list \<Rightarrow> string list \<Rightarrow> string \<Rightarrow> string \<Rightarrow> 'db
     \<Rightarrow> (string list \<times> error option) \<times> 'db" where
  "addCreds g store user creds tags lng tmpToken d =
     (case addCredsLoop g user lng tmpToken creds ([], tags, d) of
        Inl (err, d') \<Rightarrow> (([], Some err), d')
      | Inr (validated, tags', d') \<Rightarrow>
          if length tags' > 0 then
            (case UpdateTags store user [] [] tags' d' of
               (Some err, d'') \<Rightarrow> (([], Some err), d'')
             | (None, d'') \<Rightarrow> ((validated, None), d''))
          else ((validated, None), d'))"

subsection \<open>\<open>replyCreateUser\<close>\<close>

text \<open>
  The loop that pre-checks the credentials: a \<^verbatim>\<open>nil\<close> validator panics, the first failing
  credential ends the request.
\<close>

fun preCheckCreds :: "'db Globals \<Rightarrow> MsgCredClient list \<Rightarrow> string + (MsgCredClient \<times> error) option" where
  "preCheckCreds g [] = Inr None"
| "preCheckCreds g (cr # rest) =
     (case GetValidator g (cr_Method cr) of
        None \<Rightarrow> Inl ''invalid memory address or nil pointer dereference''
      | Some vld \<Rightarrow>
          (case PreCheck vld (cr_Value cr) (cr_Params cr) of
             Some err \<Rightarrow> Inr (Some (cr, err))
           | None \<Rightarrow> preCheckCreds g rest))"

text \<open>One of \<open>user.Access.Auth\<close>, \<open>user.Access.Anon\<close>, set from the text the client sent.\<close>

definition assignAccess :: "AccessMode \<Rightarrow> string \<Rightarrow> AccessMode" where
  "assignAccess m txt =
     (if txt \<noteq> [] then
        (let m1 = fst (AccessMode_UnmarshalText m txt) AND ModeCP2P
         in if m1 \<noteq> ModeNone then m1 OR ModeApprove else m1)
      else m)"

definition applyDesc :: "'db AccountEnv \<Rightarrow> MsgSetDesc option \<Rightarrow> User \<Rightarrow> User \<times> string option" where
  "applyDesc env desc user =
     (case desc of
        None \<Rightarrow> (user, None)
      | Some d \<Rightarrow>
          (let user1 = (case DefaultAcs d of
                          None \<Rightarrow> user
                        | Some acs \<Rightarrow>
                            user\<lparr>Access := \<lparr>da_Auth = assignAccess (da_Auth (Access user)) (acs_Auth acs),
                                            da_Anon = assignAccess (da_Anon (Access user)) (acs_Anon acs)\<rparr>\<rparr>);
               user2 = (if \<not> isNullValue env (desc_Public d) then user1\<lparr>user_Public := desc_Public d\<rparr>
                        else user1)
           in (user2, if \<not> isNullValue env (desc_Private d) then desc_Private d else None)))"

text \<open>
  The zero \<open>types.User\<close> with the tags and the default access assigned, the record passed to
  \<open>AddRecord\<close>, and the record passed to \<open>GenSecret\<close> for the temporary token.
\<close>

definition newUser :: "'db AccountEnv \<Rightarrow> string list \<Rightarrow> User" where
  "newUser env tags =
     \<lparr>user_id = 0, user_Tags = tags,
      Access = \<lparr>da_Auth = getDefaultAccess env TopicCatP2P True,
                da_Anon = getDefaultAccess env TopicCatP2P False\<rparr>,
      user_Public = None, CreatedAt = 0, UpdatedAt = 0\<rparr>"

definition newAuthRec :: "User \<Rightarrow> auth_Rec" where
  "newAuthRec user =
     \<lparr>rec_Uid = user_id user, rec_AuthLevel = LevelNone, rec_Tags = user_Tags user,
      rec_Lifetime = 0, rec_Features = 0\<rparr>"

definition tmpTokenRec :: "User \<Rightarrow> auth_Rec" where
  "tmpTokenRec user =
     \<lparr>rec_Uid = user_id user, rec_AuthLevel = LevelNone, rec_Tags = [],
      rec_Lifetime = tmpTokenLifetime, rec_Features = FeatureNoLogin\<rparr>"

text \<open>
  The rest of \<open>replyCreateUser\<close> once \<open>store.Users.Create\<close> has succeeded: \<open>user\<close> is the record
  it stored, \<open>w\<close> the world with the database it left.
\<close>

definition afterCreate ::
  "'db AccountEnv \<Rightarrow> 'db Globals \<Rightarrow> 'db UsersStore \<Rightarrow> 'db AuthHandler \<Rightarrow> AccMessage \<Rightarrow> User \<Rightarrow> string option
     \<Rightarrow> MsgCredClient list \<Rightarrow> 'db world \<Rightarrow> string + 'db world" where
  "afterCreate env g store authhdl msg user private creds w =
     (case AddRecord authhdl (newAuthRec user) (acc_Secret (Acc msg)) (w_db w) of
        ((r, Some err), d2) \<Rightarrow>
          Inr (reply (decodeStoreError (Some err) (msg_id msg) (msg_timestamp msg) [])
                 (w\<lparr>w_db := snd (Users_Delete env (user_id user) False d2)\<rparr>))
      | ((r, None), d2) \<Rightarrow>
          if length creds < length (authValidators g (rec_AuthLevel r)) then
            Inr (reply (decodeStoreError (Some (Store ErrPolicy)) (msg_id msg) (msg_timestamp msg)
                          [(''creds'', PStrings (snd (stringSliceDelta env (authValidators g (rec_AuthLevel r))
                                                       (credentialMethods env creds))))])
                   (w\<lparr>w_db := snd (Users_Delete env (user_id user) False d2)\<rparr>))
          else
            (case GetLogicalAuthHandler env ''token'' of
               None \<Rightarrow> Inl ''invalid memory address or nil pointer dereference''
             | Some tokenhdl \<Rightarrow>
                 (let tmpToken = fst (GenSecret tokenhdl (tmpTokenRec user))
                  in case addCreds g store (user_id user) creds (rec_Tags r) (sess_lang (w_sess w)) tmpToken d2 of
                       ((validated, Some err), d3) \<Rightarrow>
                         Inr (reply (decodeStoreError (Some err) (msg_id msg) (msg_timestamp msg) [])
                                (w\<lparr>w_db := snd (Users_Delete env (user_id user) False d3)\<rparr>))
                     | ((validated, None), d3) \<Rightarrow>
                         (let desc = PDesc \<lparr>td_CreatedAt = CreatedAt user, td_UpdatedAt = UpdatedAt user,
                                           td_DefaultAcs =
                                             \<lparr>acs_Auth = AccessMode_String (da_Auth (Access user)),
                                              acs_Anon = AccessMode_String (da_Anon (Access user))\<rparr>,
                                           td_Public = user_Public user, td_Private = private\<rparr>;
                              w3 = w\<lparr>w_db := d3\<rparr>;
                              w4 = (if acc_Login (Acc msg) then
                                      reply (onLoginReply (msg_id msg) (msg_timestamp msg) r
                                               (snd (stringSliceDelta env (authValidators g (rec_AuthLevel r)) validated))
                                               [(''desc'', desc)])
                                        (w3\<lparr>w_sess := onLogin env (w_sess w3) r\<rparr>)
                                    else
                                      reply (NoErrCreatedReply (msg_id msg) (msg_timestamp msg)
                                               [(''user'', PString (UserId (user_id user))),
                                                (''authlvl'', PString (case rec_AuthLevel r of
                                                                        LevelNone \<Rightarrow> [] | LevelAnon \<Rightarrow> ''anon''
                                                                      | LevelAuth \<Rightarrow> ''auth'' | LevelRoot \<Rightarrow> ''root'')),
                                                (''desc'', desc)])
                                        w3)
                          in Inr (w4\<lparr>w_pluginAccount := w_pluginAccount w4 @ [(user, plgActCreate)]\<rparr>)))))"

definition replyCreateUser ::
  "'db AccountEnv \<Rightarrow> 'db Globals \<Rightarrow> 'db UsersStore \<Rightarrow> AccMessage \<Rightarrow> auth_Rec option \<Rightarrow> 'db world
     \<Rightarrow> string + 'db world" where
  "replyCreateUser env g store msg rec w =
     (if acc_Login (Acc msg) \<and> (\<not> Uid_IsZero (sess_uid (w_sess w)) \<or> rec \<noteq> None) then
        Inr (reply (ErrAlreadyAuthenticatedReply (msg_id msg) (msg_timestamp msg)) w)
      else
        (case GetLogicalAuthHandler env (acc_Scheme (Acc msg)) of
           None \<Rightarrow> Inr (reply (ErrMalformedReply (msg_id msg) (msg_timestamp msg)) w)
         | Some authhdl \<Rightarrow>
             (case IsUnique authhdl (acc_Secret (Acc msg)) (w_db w) of
                (ok, err) \<Rightarrow>
                  if \<not> ok then
                    Inr (reply (decodeStoreError err (msg_id msg) (msg_timestamp msg) [(''what'', PString ''auth'')]) w)
                  else
                    (let tags = normalizeTags env (acc_Tags (Acc msg)) in
                     if tags \<noteq> [] \<and> \<not> restrictedTagsEqual env tags [] (immutableTagNS env) then
                       Inr (reply (ErrPermissionDeniedReply (msg_id msg) (msg_timestamp msg)
                                     [(''what'', PString ''tags'')]) w)
                     else
                       (let creds = normalizeCredentials g (acc_Cred (Acc msg)) True in
                        case preCheckCreds g creds of
                          Inl p \<Rightarrow> Inl p
                        | Inr (Some (cr, err)) \<Rightarrow>
                            Inr (reply (decodeStoreError (Some err) (acc_Id (Acc msg)) (msg_timestamp msg)
                                          [(''what'', PString (cr_Method cr))]) w)
                        | Inr None \<Rightarrow>
                            (let (user1, private) = applyDesc env (acc_Desc (Acc msg)) (newUser env tags)
                             in case Users_Create env user1 private (w_db w) of
                                  ((user, Some err), d1) \<Rightarrow>
                                    Inr (reply (ErrUnknownReply (msg_id msg) (msg_timestamp msg)) (w\<lparr>w_db := d1\<rparr>))
                                | ((user, None), d1) \<Rightarrow>
                                    afterCreate env g store authhdl msg user private creds (w\<lparr>w_db := d1\<rparr>)))))))"


section \<open>Auxiliary notions used in the proofs\<close>

text \<open>The 24-bit value \<open>Encode\<close> forms from three bytes.\<close>

definition val3 :: "byte \<Rightarrow> byte \<Rightarrow> byte \<Rightarrow> 32 word" where
  "val3 b0 b1 b2 = push_bit 16 (ucast b0) OR push_bit 8 (ucast b1) OR ucast b2"

text \<open>The number of characters of the base64 alphabet in a string.\<close>

definition validCount :: "string \<Rightarrow> nat" where
  "validCount s = length (filter (\<lambda>c. decodeMap c \<noteq> 0xFF) s)"

text \<open>Concrete inputs at which the theorems below are evaluated.\<close>

definition cache0 :: UsersCache where
  "cache0 = [1 \<mapsto> \<lparr>unread = - 1, topics = 1\<rparr>]"

definition state0 :: updaterState where
  "state0 = \<lparr>usersCache = cache0, usersUpdateSet = True, pushed = []\<rparr>"

definition register2 :: userUpdate where
  "register2 = \<lparr>upd_uid = 0, upd_uidList = [2], upd_unread = 0, upd_inc = True, upd_pushRcpt = None\<rparr>"

definition unregister1 :: userUpdate where
  "unregister1 = \<lparr>upd_uid = 0, upd_uidList = [1], upd_unread = 0, upd_inc = False, upd_pushRcpt = None\<rparr>"

definition unread2 :: userUpdate where
  "unread2 = \<lparr>upd_uid = 2, upd_uidList = [], upd_unread = 1, upd_inc = True, upd_pushRcpt = None\<rparr>"

definition count5 :: "Uid \<Rightarrow> int64 \<times> error option" where
  "count5 u = (5, None)"

text \<open>A store that holds one active and validated credential, or none, and never fails.\<close>

definition storedCred :: Credential where
  "storedCred = \<lparr>Method = ''email'', Value = ''a@example.com'', Resp = ''424242'', Retries = 0\<rparr>"

definition storeWith :: "Credential option \<Rightarrow> 'db UsersStore" where
  "storeWith c =
     \<lparr>GetActiveCred = (\<lambda>u m db. (c, None)),
      ConfirmCred = (\<lambda>u m db. (None, db)),
      FailCred = (\<lambda>u m db. (None, db)),
      GetAllCreds = (\<lambda>u validatedOnly db. (case c of None \<Rightarrow> [] | Some x \<Rightarrow> [x], None)),
      UpdateTags = (\<lambda>u add remove reset db. (None, db))\<rparr>"

definition emailValidator :: "'db Validator" where
  "emailValidator =
     \<lparr>PreCheck = (\<lambda>v params. None),
      Request = (\<lambda>u v lang resp tmpToken db. (None, db)),
      Check = (\<lambda>u resp db. ((''a@example.com'', None), db))\<rparr>"

definition globals0 :: "'db Globals" where
  "globals0 =
     \<lparr>authValidators = (\<lambda>lvl. [''email'']),
      addToTags = (\<lambda>m. True),
      GetValidator = (\<lambda>m. if m = ''email'' then Some emailValidator else None),
      normalizeCredentials = (\<lambda>creds strict. creds)\<rparr>"

definition emailCred :: MsgCredClient where
  "emailCred = \<lparr>cr_Method = ''email'', cr_Value = ''a@example.com'', cr_Response = ''424242'', cr_Params = []\<rparr>"

definition telValidator :: validator where
  "telValidator = \<lparr>DebugResponse = ''123456'', MaxRetries = 1000\<rparr>"

text \<open>An idle P2P topic of the users 1 and 2, an invite from a session, and collaborators.\<close>

definition topicEnv0 :: topicEnv where
  "topicEnv0 =
     \<lparr>saveAndBroadcastMessage = (\<lambda>t msg u b head content. (None, lastID t + 1)),
      p2pOtherUser = (\<lambda>t u. if u = 1 then 2 else 1),
      original = (\<lambda>t u. topic_name t),
      isInactive = (\<lambda>t. False),
      TimeNow = 0\<rparr>"

definition idleTopic :: Topic where
  "idleTopic =
     \<lparr>topic_name = ''p2pAB'', cat = TopicCatP2P, lastID = 7, perUser = [1, 2],
      currentCall = None, callEstablishmentTimer = Stopped, effects = []\<rparr>"

definition inviteFrom :: "nat \<Rightarrow> string \<Rightarrow> ClientComMessage" where
  "inviteFrom sess asUser =
     \<lparr>msg_sess = sess, AsUser = asUser, Original = ''p2pAB'', RcptTo = ''p2pAB'', Timestamp = 0,
      Note = \<lparr>note_SeqId = 0, note_Event = [], note_Payload = []\<rparr>\<rparr>"

definition liveTopic :: Topic where
  "liveTopic = handleCallInvite topicEnv0 (inviteFrom 1 (UserId 1)) 1 idleTopic"

definition hangupFrom :: "nat \<Rightarrow> string \<Rightarrow> ClientComMessage" where
  "hangupFrom sess asUser =
     \<lparr>msg_sess = sess, AsUser = asUser, Original = ''p2pAB'', RcptTo = ''p2pAB'', Timestamp = 0,
      Note = \<lparr>note_SeqId = 7, note_Event = constCallEventHangUp, note_Payload = []\<rparr>\<rparr>"

text \<open>
  A database that is the set of the user rows: \<open>Users.Create\<close> stores the row of user 1,
  \<open>Users.Delete\<close> removes a row, \<open>AddRecord\<close> returns the given error.
\<close>

definition basicHandler :: "error option \<Rightarrow> (Uid set) AuthHandler" where
  "basicHandler e =
     \<lparr>IsUnique = (\<lambda>secret d. (True, None)),
      AddRecord = (\<lambda>r secret d. ((r\<lparr>rec_AuthLevel := LevelAuth\<rparr>, e), d)),
      GenSecret = (\<lambda>r. (''token'', 0, None))\<rparr>"

definition accountEnv0 :: "error option \<Rightarrow> (Uid set) AccountEnv" where
  "accountEnv0 e =
     \<lparr>GetLogicalAuthHandler = (\<lambda>scheme. Some (basicHandler e)),
      normalizeTags = (\<lambda>tags. tags),
      restrictedTagsEqual = (\<lambda>a b ns. True),
      immutableTagNS = [],
      getDefaultAccess = (\<lambda>c auth. if auth then ModeCP2P else ModeNone),
      isNullValue = (\<lambda>v. v = None),
      Users_Create = (\<lambda>u private d. ((u\<lparr>user_id := 1\<rparr>, None), insert 1 d)),
      Users_Delete = (\<lambda>u hard d. (None, d - {u})),
      stringSliceDelta = (\<lambda>a b. (filter (\<lambda>x. x \<notin> set a) b, filter (\<lambda>x. x \<notin> set b) a)),
      credentialMethods = map cr_Method,
      onLogin = (\<lambda>s r. s\<lparr>sess_uid := rec_Uid r, sess_authLvl := rec_AuthLevel r\<rparr>)\<rparr>"


definition createMsg :: AccMessage where
  "createMsg =
     \<lparr>msg_id = ''1'', msg_timestamp = 0,
      Acc = \<lparr>acc_Id = ''1'', acc_Scheme = ''basic'', acc_Secret = ''alice:pw'', acc_Login = False,
             acc_Tags = [''alice''], acc_Desc = None, acc_Cred = [emailCred]\<rparr>\<rparr>"

definition world0 :: "(Uid set) world" where
  "world0 =
     \<lparr>w_db = {}, w_queueOut = [],
      w_sess = \<lparr>sess_uid = 0, sess_sid = ''s1'', sess_lang = ''en'', sess_authLvl = LevelNone\<rparr>,
      w_pluginAccount = []\<rparr>"

text \<open>The user row that \<open>accountEnv0\<close> stores for \<open>createMsg\<close>, and a store that cannot update tags.\<close>

definition demoUser :: User where
  "demoUser = (newUser (accountEnv0 None) [''alice''])\<lparr>user_id := 1\<rparr>"


section \<open>Properties of the identifier codecs\<close>


lemma byte_bit: "bit (b :: byte) n \<Longrightarrow> n < 8"
  by (drule bit_imp_le_length) simp

lemma decodeMap_alphabet_all: "list_all (\<lambda>i. decodeMap (encodeURL ! i) = of_nat i) [0..<64]"
  by code_simp

lemma decodeMap_alphabet: "i < 64 \<Longrightarrow> decodeMap (encodeURL ! i) = of_nat i"
  using decodeMap_alphabet_all by (simp add: list_all_iff)

lemma unat_mask6: "unat (v AND mask 6 :: 32 word) < 64"
proof -
  have "unat (v AND mask 6) \<le> unat (mask 6 :: 32 word)"
    by (rule word_and_le1 [THEN word_le_nat_alt [THEN iffD1]])
  then show ?thesis by (simp add: mask_eq_exp_minus_1)
qed

lemma decodeMap_enc6: "decodeMap (enc6 v) = ucast (v AND mask 6)"
  by (simp add: enc6_def decodeMap_alphabet unat_mask6)

lemma decodeMap_enc6_valid: "decodeMap (enc6 v) \<noteq> 0xFF"
proof
  assume "decodeMap (enc6 v) = 0xFF"
  then have "bit (ucast (v AND mask 6) :: byte) 7 = bit (0xFF :: byte) 7"
    by (simp add: decodeMap_enc6)
  then show False by (simp add: bit_simps)
qed

lemma decodeMap_pad: "decodeMap (CHR ''='') = 0xFF"
  by code_simp

lemma isNewline_pad: "\<not> isNewline (CHR ''='')"
  by (simp add: isNewline_def)

lemma Uint64_PutUint64: "Uint64 (PutUint64 v @ rest) = v"
proof (rule bit_word_eqI)
  fix n :: nat
  assume "n < LENGTH(64)"
  then consider "n < 8" | "8 \<le> n" "n < 16" | "16 \<le> n" "n < 24" | "24 \<le> n" "n < 32"
    | "32 \<le> n" "n < 40" | "40 \<le> n" "n < 48" | "48 \<le> n" "n < 56" | "56 \<le> n" "n < 64"
    by fastforce
  then show "bit (Uint64 (PutUint64 v @ rest)) n = bit v n"
    by cases (auto simp add: Uint64_def PutUint64_def bit_simps)
qed




lemma reassemble24:
  fixes v :: "32 word"
  assumes hi: "\<And>n. bit v n \<Longrightarrow> n < 24"
  shows "push_bit 18 (ucast (ucast (drop_bit 18 v AND mask 6) :: byte))
         OR push_bit 12 (ucast (ucast (drop_bit 12 v AND mask 6) :: byte))
         OR push_bit 6 (ucast (ucast (drop_bit 6 v AND mask 6) :: byte))
         OR ucast (ucast (v AND mask 6) :: byte) = v" (is "?lhs = v")
proof (rule bit_word_eqI)
  fix n :: nat
  assume "n < LENGTH(32)"
  consider "n < 6" | "6 \<le> n" "n < 12" | "12 \<le> n" "n < 18" | "18 \<le> n" "n < 24" | "24 \<le> n"
    by linarith
  then show "bit ?lhs n = bit v n"
  proof cases
    case 5
    then show ?thesis using hi[of n] by (auto simp add: bit_simps)
  qed (auto simp add: bit_simps)
qed

lemma val3_hi: "bit (val3 b0 b1 b2) n \<Longrightarrow> n < 24"
  by (auto simp add: val3_def bit_simps dest: byte_bit)

lemma val3_b0: "ucast (drop_bit 16 (val3 b0 b1 b2)) = b0"
  unfolding val3_def by (rule bit_word_eqI) (auto simp add: bit_simps dest: byte_bit)

lemma val3_b1: "ucast (drop_bit 8 (val3 b0 b1 b2)) = b1"
  unfolding val3_def by (rule bit_word_eqI) (auto simp add: bit_simps dest: byte_bit)

lemma val3_b2: "ucast (val3 b0 b1 b2) = b2"
  unfolding val3_def by (rule bit_word_eqI) (auto simp add: bit_simps)

lemma val3_low0: "val3 b0 b1 0 AND mask 6 = 0"
  unfolding val3_def by (rule bit_word_eqI) (auto simp add: bit_simps)

lemma val3_mid0: "drop_bit 6 (val3 b0 0 0) AND mask 6 = 0"
  unfolding val3_def by (rule bit_word_eqI) (auto simp add: bit_simps)

lemma sextet_valid: "(ucast (v AND mask 6 :: 32 word) :: byte) \<noteq> 255"
  using decodeMap_enc6_valid [of v] by (simp add: decodeMap_enc6)

lemma assemble_val3:
  "assemble (ucast (drop_bit 18 (val3 b0 b1 b2) AND mask 6)) (ucast (drop_bit 12 (val3 b0 b1 b2) AND mask 6))
            (ucast (drop_bit 6 (val3 b0 b1 b2) AND mask 6)) (ucast (val3 b0 b1 b2 AND mask 6)) = val3 b0 b1 b2"
  unfolding assemble_def by (rule reassemble24) (rule val3_hi)

lemma quantumBytes_val3:
  "quantumBytes [ucast (drop_bit 18 (val3 b0 b1 b2) AND mask 6), ucast (drop_bit 12 (val3 b0 b1 b2) AND mask 6),
                 ucast (drop_bit 6 (val3 b0 b1 b2) AND mask 6), ucast (val3 b0 b1 b2 AND mask 6)] = [b0, b1, b2]"
  by (simp add: quantumBytes_def assemble_val3 val3_b0 val3_b1 val3_b2)

lemma quantumBytes_val3_two:
  "quantumBytes [ucast (drop_bit 18 (val3 b0 b1 0) AND mask 6), ucast (drop_bit 12 (val3 b0 b1 0) AND mask 6),
                 ucast (drop_bit 6 (val3 b0 b1 0) AND mask 6)] = [b0, b1, 0]"
  using assemble_val3 [of b0 b1 0]
  by (simp add: quantumBytes_def val3_low0 val3_b0 val3_b1 val3_b2)

lemma quantumBytes_val3_one:
  "quantumBytes [ucast (drop_bit 18 (val3 b0 0 0) AND mask 6), ucast (drop_bit 12 (val3 b0 0 0) AND mask 6)] = [b0, 0, 0]"
  using assemble_val3 [of b0 0 0]
  by (simp add: quantumBytes_def val3_low0 val3_mid0 val3_b0 val3_b1 val3_b2)

lemma val3_two: "push_bit 16 (ucast b0) OR push_bit 8 (ucast b1) = val3 b0 b1 0"
  by (simp add: val3_def)

lemma val3_one: "push_bit 16 (ucast b0) = val3 b0 0 0"
  by (simp add: val3_def)

lemma decodeFrom_Encode: "decodeFrom [] (Encode bs) = (bs, False)"
proof (induction bs rule: Encode.induct)
  case (1 b0 b1 b2 rest)
  then show ?case
    by (simp add: Let_def val3_def [symmetric] decodeMap_enc6 sextet_valid quantumBytes_val3)
next
  case (2 b0 b1)
  show ?case
    by (simp add: Let_def val3_two decodeMap_enc6 sextet_valid decodeMap_pad isNewline_pad
        decodePadding_def quantumBytes_val3_two)
next
  case (3 b0)
  show ?case
    by (simp add: Let_def val3_one decodeMap_enc6 sextet_valid decodeMap_pad isNewline_pad
        decodePadding_def quantumBytes_val3_one)
next
  case 4
  show ?case by simp
qed




lemma Decode_Encode: "Decode (Encode bs) = (bs, False)"
  by (simp add: Decode_def decodeFrom_Encode)

lemma Encode_uid_padded:
  "take uidBase64Unpadded (Encode (PutUint64 u)) @ replicate (uidBase64Padded - uidBase64Unpadded) (CHR ''='')
     = Encode (PutUint64 u)"
  by (simp add: PutUint64_def Let_def uidBase64Unpadded_def uidBase64Padded_def)

lemma length_Encode_uid: "length (take uidBase64Unpadded (Encode (PutUint64 u))) = uidBase64Unpadded"
  by (simp add: PutUint64_def Let_def uidBase64Unpadded_def)

lemma Encode_p2p_padded:
  "take p2pBase64Unpadded (Encode (PutUint64 a @ PutUint64 b)) @ replicate (p2pBase64Padded - p2pBase64Unpadded) (CHR ''='')
     = Encode (PutUint64 a @ PutUint64 b)"
  by (simp add: PutUint64_def Let_def p2pBase64Unpadded_def p2pBase64Padded_def numeral_eq_Suc)

lemma length_Encode_p2p: "length (take p2pBase64Unpadded (Encode (PutUint64 a @ PutUint64 b))) = p2pBase64Unpadded"
  by (simp add: PutUint64_def Let_def p2pBase64Unpadded_def)

lemma length_PutUint64: "length (PutUint64 v) = 8"
  by (simp add: PutUint64_def)

lemma Uid_UnmarshalText_MarshalText:
  assumes "u \<noteq> 0"
  shows "Uid_UnmarshalText r (fst (Uid_MarshalText u)) = (u, None)"
proof -
  let ?src = "take uidBase64Unpadded (Encode (PutUint64 u))"
  have len: "length ?src = uidBase64Unpadded"
    by (rule length_Encode_uid)
  have pad: "?src @ replicate (uidBase64Padded - uidBase64Unpadded) (CHR ''='') = Encode (PutUint64 u)"
    by (rule Encode_uid_padded)
  have "Uid_UnmarshalText r ?src = (Uint64 (decBuffer (DecodedLen uidBase64Padded) (PutUint64 u)), None)"
    by (simp only: Uid_UnmarshalText_def len pad Let_def Decode_Encode split_conv length_PutUint64)
      simp
  then show ?thesis
    using assms by (simp add: Uid_MarshalText_def decBuffer_def Uint64_PutUint64)
qed

lemma ParseUid_String: "ParseUid (Uid_String u) = u"
proof (cases "u = 0")
  case True
  then show ?thesis
    by (simp add: ParseUid_def Uid_String_def Uid_MarshalText_def Uid_UnmarshalText_def uidBase64Unpadded_def)
next
  case False
  then show ?thesis
    by (simp add: ParseUid_def Uid_String_def Uid_UnmarshalText_MarshalText)
qed

lemma ParseP2P_Encode:
  "ParseP2P (''p2p'' @ take p2pBase64Unpadded (Encode (PutUint64 a @ PutUint64 b))) = (a, b, None)"
proof -
  let ?src = "take p2pBase64Unpadded (Encode (PutUint64 a @ PutUint64 b))"
  have len: "length ?src = p2pBase64Unpadded"
    by (rule length_Encode_p2p)
  have pad: "?src @ replicate (p2pBase64Padded - p2pBase64Unpadded) (CHR ''='') = Encode (PutUint64 a @ PutUint64 b)"
    by (rule Encode_p2p_padded)
  have pre: "HasPrefix (''p2p'' @ ?src) ''p2p''" and dr: "drop 3 (''p2p'' @ ?src) = ?src"
    by (simp_all add: HasPrefix_def)
  have d: "drop 8 (PutUint64 a @ PutUint64 b @ rest) = PutUint64 b @ rest" for rest
    by (simp add: length_PutUint64)
  have l16: "length (PutUint64 a @ PutUint64 b) = 16"
    by (simp add: length_PutUint64)
  have "ParseP2P (''p2p'' @ ?src) =
      (Uint64 (decBuffer (DecodedLen p2pBase64Padded) (PutUint64 a @ PutUint64 b)),
       Uint64 (drop 8 (decBuffer (DecodedLen p2pBase64Padded) (PutUint64 a @ PutUint64 b))), None)"
    by (simp only: ParseP2P_def pre dr if_True len pad Let_def Decode_Encode split_conv l16)
      simp
  then show ?thesis
    by (simp add: decBuffer_def Uint64_PutUint64 length_PutUint64)
qed

lemma P2PName_less:
  assumes "a \<noteq> 0" "b \<noteq> 0" "a < b"
  shows "P2PName a b = ''p2p'' @ take p2pBase64Unpadded (Encode (PutUint64 a @ PutUint64 b))"
    and "P2PName b a = ''p2p'' @ take p2pBase64Unpadded (Encode (PutUint64 a @ PutUint64 b))"
  using assms by (auto simp add: P2PName_def Uid_IsZero_def Uid_MarshalBinary_def Let_def)

lemma P2PName_self: "P2PName a a = []"
  by (simp add: P2PName_def Let_def)

lemma P2P_roundtrip:
  assumes "a \<noteq> 0" "b \<noteq> 0" "a \<noteq> b"
  shows "P2PName a b = P2PName b a \<and> ParseP2P (P2PName a b) = (min a b, max a b, None)"
proof -
  consider "a < b" | "b < a" using assms(3) by (meson linorder_neqE)
  then show ?thesis
  proof cases
    case 1
    then have m: "min a b = a" "max a b = b" by simp_all
    show ?thesis
      by (simp only: P2PName_less [OF assms(1) assms(2) 1] ParseP2P_Encode m)
  next
    case 2
    then have m: "min a b = b" "max a b = a" by simp_all
    show ?thesis
      by (simp only: P2PName_less [OF assms(2) assms(1) 2] ParseP2P_Encode m)
  qed
qed

lemma length_quantumBytes: "length (quantumBytes d) = 3"
  by (simp add: quantumBytes_def Let_def)

lemma decodePadding_bound:
  "length dbuf \<le> 3 \<Longrightarrow> 4 * length (fst (decodePadding dbuf cs)) \<le> 3 * length dbuf"
  by (auto simp add: decodePadding_def Let_def length_quantumBytes split: list.splits)

lemma decodeFrom_bound:
  "length dbuf \<le> 3 \<Longrightarrow> 4 * length (fst (decodeFrom dbuf s)) \<le> 3 * (length dbuf + validCount s)"
proof (induction dbuf s rule: decodeFrom.induct)
  case (1 dbuf)
  then show ?case by simp
next
  case (2 dbuf c cs)
  show ?case
  proof (cases "decodeMap c \<noteq> 0xFF")
    case valid: True
    show ?thesis
    proof (cases "length dbuf = 3")
      case True
      with valid 2 show ?thesis
        by (auto simp add: validCount_def length_quantumBytes split: prod.splits)
    next
      case False
      with valid 2 show ?thesis
        by (simp add: validCount_def)
    qed
  next
    case invalid: False
    then show ?thesis
      using 2 decodePadding_bound [of dbuf cs]
      by (simp add: validCount_def)
  qed
qed

lemma Decode_padded_bound:
  assumes "length s = 11"
  shows "length (fst (Decode (s @ [CHR ''='']))) \<le> 8"
proof -
  have "validCount (s @ [CHR ''='']) \<le> 11"
    using assms length_filter_le [of "\<lambda>c. decodeMap c \<noteq> 0xFF" s]
    by (simp add: validCount_def decodeMap_pad)
  moreover have "4 * length (fst (Decode (s @ [CHR ''='']))) \<le> 3 * validCount (s @ [CHR ''=''])"
    using decodeFrom_bound [of "[]" "s @ [CHR ''='']"] by (simp add: Decode_def)
  ultimately show ?thesis by linarith
qed

lemma Uid_UnmarshalText_accepts_iff:
  "snd (Uid_UnmarshalText r s) = None \<longleftrightarrow>
     length s = 11 \<and> length (fst (Decode (s @ [CHR ''='']))) = 8"
proof (cases "length s = 11")
  case True
  then show ?thesis
    using Decode_padded_bound [OF True]
    by (auto simp add: Uid_UnmarshalText_def uidBase64Unpadded_def uidBase64Padded_def Let_def
        split: prod.splits)
next
  case False
  then show ?thesis by (simp add: Uid_UnmarshalText_def uidBase64Unpadded_def)
qed

lemma Uid_UnmarshalText_rejects_keeps: "snd (Uid_UnmarshalText r s) \<noteq> None \<Longrightarrow> fst (Uid_UnmarshalText r s) = r"
  by (auto simp add: Uid_UnmarshalText_def Let_def split: prod.splits if_splits)



section \<open>Properties of the user cache\<close>

lemma sint_incr:
  fixes t :: int64
  assumes "sint t + 1 < 2 ^ 63"
  shows "sint (t + 1) = sint t + 1"
proof -
  have "- (2 ^ 63) \<le> sint t" using sint_ge [of t] by simp
  with assms show ?thesis
    by (simp add: sint_word_ariths signed_take_bit_int_eq_self)
qed

lemma sint_decr:
  fixes t :: int64
  assumes "1 <s t"
  shows "sint (t - 1) = sint t - 1"
proof -
  have "sint t < 2 ^ 63" using sint_lt [of t] by simp
  moreover have "1 < sint t" using assms by (simp add: word_sless_alt)
  ultimately show ?thesis
    by (simp add: sint_word_ariths signed_take_bit_int_eq_self)
qed

lemma membershipOne_add_new:
  "cache u = None \<Longrightarrow> membershipOne True u cache = Inr (cache(u \<mapsto> \<lparr>unread = - 1, topics = 1\<rparr>))"
  by (simp add: membershipOne_def)

lemma membershipOne_add_cached:
  "cache u = Some e \<Longrightarrow> membershipOne True u cache = Inr (cache(u \<mapsto> e\<lparr>topics := topics e + 1\<rparr>))"
  by (simp add: membershipOne_def)

lemma membershipOne_remove_many:
  "cache u = Some e \<Longrightarrow> 1 <s topics e \<Longrightarrow>
     membershipOne False u cache = Inr (cache(u \<mapsto> e\<lparr>topics := topics e - 1\<rparr>))"
  by (simp add: membershipOne_def)

lemma membershipOne_remove_last:
  "cache u = Some e \<Longrightarrow> \<not> 1 <s topics e \<Longrightarrow> membershipOne False u cache = Inr (cache(u := None))"
  by (simp add: membershipOne_def)

lemma membershipOne_remove_uncached:
  "cache u = None \<Longrightarrow>
     membershipOne False u cache = Inl ''request to unregister user which has not been registered''"
  by (simp add: membershipOne_def)

lemma unreadUpdater_uncached:
  "cache u = None \<Longrightarrow>
     unreadUpdater g u val inc cache = Inl ''attempt to update unread count for user who has not been loaded''"
  by (simp add: unreadUpdater_def)

lemma cache_inv_update: "cache_inv cache \<Longrightarrow> 0 <s topics e \<Longrightarrow> cache_inv (cache(u \<mapsto> e))"
  by (simp add: cache_inv_def)

lemma cache_inv_delete: "cache_inv cache \<Longrightarrow> cache_inv (cache(u := None))"
  by (simp add: cache_inv_def)

lemma topics_room_Suc: "topics_room (Suc k) cache \<Longrightarrow> topics_room k cache"
  unfolding topics_room_def
proof (intro conjI allI impI)
  assume a: "int (Suc k) < 2 ^ 63 \<and> (\<forall>u e. cache u = Some e \<longrightarrow> sint (topics e) + int (Suc k) < 2 ^ 63)"
  then show "int k < 2 ^ 63" by simp
  fix u e assume "cache u = Some e"
  with a have "sint (topics e) + int (Suc k) < 2 ^ 63" by blast
  then show "sint (topics e) + int k < 2 ^ 63" by simp
qed

lemma topics_room_update:
  "topics_room k cache \<Longrightarrow> sint (topics e) + int k < 2 ^ 63 \<Longrightarrow> topics_room k (cache(u \<mapsto> e))"
  by (simp add: topics_room_def)

lemma topics_room_delete: "topics_room k cache \<Longrightarrow> topics_room k (cache(u := None))"
  by (simp add: topics_room_def)

lemma membershipOne_inv:
  assumes "membershipOne inc u cache = Inr cache'" "cache_inv cache" "topics_room (Suc k) cache"
  shows "cache_inv cache' \<and> topics_room k cache'"
proof (cases "cache u")
  case None
  with assms(1) have c': "cache' = cache(u \<mapsto> \<lparr>unread = - 1, topics = 1\<rparr>)"
    by (auto simp add: membershipOne_def split: if_splits)
  have k: "int (Suc k) < 2 ^ 63" using assms(3) by (simp add: topics_room_def)
  have "cache_inv cache'"
    unfolding c' using assms(2) by (rule cache_inv_update) (simp add: word_sless_alt)
  moreover have "topics_room k cache'"
    unfolding c' using topics_room_Suc [OF assms(3)] by (rule topics_room_update) (use k in simp)
  ultimately show ?thesis by simp
next
  case (Some e)
  have pos: "0 < sint (topics e)"
    using assms(2) Some by (auto simp add: cache_inv_def word_sless_alt)
  have room: "sint (topics e) + int (Suc k) < 2 ^ 63"
    using assms(3) Some by (auto simp add: topics_room_def)
  show ?thesis
  proof (cases inc)
    case True
    then have c': "cache' = cache(u \<mapsto> e\<lparr>topics := topics e + 1\<rparr>)"
      using assms(1) Some by (simp add: membershipOne_def)
    have s: "sint (topics e + 1) = sint (topics e) + 1"
      using room by (intro sint_incr) simp
    have "cache_inv cache'"
      unfolding c' using assms(2) by (rule cache_inv_update) (use pos s in \<open>simp add: word_sless_alt\<close>)
    moreover have "topics_room k cache'"
      unfolding c' using topics_room_Suc [OF assms(3)]
      by (rule topics_room_update) (use room s in simp)
    ultimately show ?thesis by simp
  next
    case False
    show ?thesis
    proof (cases "1 <s topics e")
      case True
      then have c': "cache' = cache(u \<mapsto> e\<lparr>topics := topics e - 1\<rparr>)"
        using assms(1) Some False by (simp add: membershipOne_def)
      have s: "sint (topics e - 1) = sint (topics e) - 1"
        using True by (rule sint_decr)
      have gt: "1 < sint (topics e)" using True by (simp add: word_sless_alt)
      have "cache_inv cache'"
        unfolding c' using assms(2) by (rule cache_inv_update) (use gt s in \<open>simp add: word_sless_alt\<close>)
      moreover have "topics_room k cache'"
        unfolding c' using topics_room_Suc [OF assms(3)]
        by (rule topics_room_update) (use room s in simp)
      ultimately show ?thesis by simp
    next
      case nl: False
      then have c': "cache' = cache(u := None)"
        using assms(1) Some False by (simp add: membershipOne_def)
      show ?thesis
        unfolding c'
        using cache_inv_delete [OF assms(2)] topics_room_delete [OF topics_room_Suc [OF assms(3)]]
        by simp
    qed
  qed
qed

lemma membershipLoop_inv:
  "membershipLoop inc us cache = Inr cache' \<Longrightarrow> cache_inv cache \<Longrightarrow> topics_room (length us) cache
     \<Longrightarrow> cache_inv cache'"
proof (induction us arbitrary: cache)
  case Nil
  then show ?case by simp
next
  case (Cons u us)
  from Cons.prems(1) obtain c1 where one: "membershipOne inc u cache = Inr c1"
    and rest: "membershipLoop inc us c1 = Inr cache'"
    by (auto split: sum.splits)
  have "cache_inv c1 \<and> topics_room (length us) c1"
    using membershipOne_inv [OF one Cons.prems(2)] Cons.prems(3) by simp
  then show ?case using Cons.IH [OF rest] by simp
qed

lemma unreadUpdater_topics:
  assumes "unreadUpdater g u val inc cache = Inr (n, cache')"
  shows "map_option topics (cache' v) = map_option topics (cache v)"
  using assms by (auto simp add: unreadUpdater_def split: option.splits if_splits prod.splits)

lemma cache_inv_topics:
  assumes "\<And>v. map_option topics (cache' v) = map_option topics (cache v)" "cache_inv cache"
  shows "cache_inv cache'"
  unfolding cache_inv_def
proof (intro allI impI)
  fix u e assume "cache' u = Some e"
  then have "map_option topics (cache u) = Some (topics e)" using assms(1) [of u] by simp
  then obtain e0 where "cache u = Some e0" "topics e0 = topics e" by auto
  then show "0 <s topics e" using assms(2) by (metis cache_inv_def)
qed

lemma pushLoop_topics:
  "pushLoop g to cache = Inr (to', cache') \<Longrightarrow> map_option topics (cache' v) = map_option topics (cache v)"
proof (induction to arbitrary: cache to')
  case Nil
  then show ?case by simp
next
  case (Cons a to)
  obtain u r where a: "a = (u, r)" by (cases a)
  from Cons.prems a obtain n c1 t1 where one: "unreadUpdater g u 1 True cache = Inr (n, c1)"
    and rest: "pushLoop g to c1 = Inr (t1, cache')"
    by (auto split: sum.splits prod.splits)
  show ?case
    using Cons.IH [OF rest] unreadUpdater_topics [OF one] by simp
qed

lemma userUpdater_step_inv:
  assumes "userUpdater_step g (Some upd) st = Continue st'" "cache_inv (usersCache st)"
    "topics_room (length (upd_uidList upd)) (usersCache st)"
  shows "cache_inv (usersCache st')"
proof (cases "upd_pushRcpt upd")
  case (Some rcpt)
  with assms(1) obtain to' c' where p: "pushLoop g (To rcpt) (usersCache st) = Inr (to', c')"
    and st': "usersCache st' = c'"
    by (auto simp add: userUpdater_step_def split: sum.splits prod.splits)
  show ?thesis
    using cache_inv_topics [OF pushLoop_topics [OF p] assms(2)] st' by simp
next
  case None
  show ?thesis
  proof (cases "length (upd_uidList upd) > 0")
    case True
    with assms(1) None obtain c' where m: "membershipLoop (upd_inc upd) (upd_uidList upd) (usersCache st) = Inr c'"
      and st': "usersCache st' = c'"
      by (auto simp add: userUpdater_step_def split: sum.splits)
    show ?thesis using membershipLoop_inv [OF m assms(2) assms(3)] st' by simp
  next
    case False
    with assms(1) None obtain n c' where
      m: "unreadUpdater g (upd_uid upd) (upd_unread upd) (upd_inc upd) (usersCache st) = Inr (n, c')"
      and st': "usersCache st' = c'"
      by (auto simp add: userUpdater_step_def split: sum.splits prod.splits)
    show ?thesis
      using cache_inv_topics [OF unreadUpdater_topics [OF m] assms(2)] st' by simp
  qed
qed



section \<open>Properties of the call state\<close>

lemma addEffects_fields [simp]:
  "currentCall (addEffects es t) = currentCall t"
  "callEstablishmentTimer (addEffects es t) = callEstablishmentTimer t"
  "perUser (addEffects es t) = perUser t"
  "lastID (addEffects es t) = lastID t"
  "cat (addEffects es t) = cat t"
  by (simp_all add: addEffects_def)

lemma maybeEnd_no_call: "currentCall t = None \<Longrightarrow> maybeEndCallInProgress env from msg t = t"
  by (simp add: maybeEndCallInProgress_def)

lemma maybeEnd_call:
  "currentCall t = Some call \<Longrightarrow>
     currentCall (maybeEndCallInProgress env from msg t) = None
     \<and> callEstablishmentTimer (maybeEndCallInProgress env from msg t) = Stopped"
  by (simp add: maybeEndCallInProgress_def Let_def split: prod.splits)

lemma maybeEnd_clears: "currentCall (maybeEndCallInProgress env from msg t) = None"
  by (cases "currentCall t") (simp_all add: maybeEnd_no_call maybeEnd_call)

lemma terminate_no_call: "currentCall t = None \<Longrightarrow> terminateCallInProgress env t = t"
  by (simp add: terminateCallInProgress_def)

lemma terminate_clears: "currentCall (terminateCallInProgress env t) = None"
  by (cases "currentCall t")
    (auto simp add: terminateCallInProgress_def maybeEnd_clears Let_def split: prod.splits option.splits)

lemma terminate_with_originator:
  assumes "currentCall t = Some call" "getCallOriginator t = (u, Some sess)" "u \<noteq> 0"
  shows "callEstablishmentTimer (terminateCallInProgress env t) = Stopped"
  using assms by (simp add: terminateCallInProgress_def Uid_IsZero_def Let_def maybeEnd_call)

lemma terminate_without_originator:
  assumes "currentCall t = Some call" "snd (getCallOriginator t) = None \<or> fst (getCallOriginator t) = 0"
  shows "callEstablishmentTimer (terminateCallInProgress env t) = callEstablishmentTimer t"
  using assms
  by (auto simp add: terminateCallInProgress_def Uid_IsZero_def split: prod.splits option.splits)

lemma invite_busy:
  "currentCall t \<noteq> None \<Longrightarrow>
     currentCall (handleCallInvite env msg asUid t) = currentCall t
     \<and> callEstablishmentTimer (handleCallInvite env msg asUid t) = callEstablishmentTimer t"
  by (simp add: handleCallInvite_def)

lemma hangup_event:
  assumes "currentCall t = Some cur" "\<not> isInactive env t" "call_seq cur = note_SeqId (Note msg)"
    "ParseUserId (AsUser msg) \<in> set (perUser t)" "note_Event (Note msg) = constCallEventHangUp"
  shows "handleCallEvent env msg t = maybeEndCallInProgress env (AsUser msg) msg t"
  using assms
  by (simp add: handleCallEvent_def Let_def constCallEventHangUp_def constCallEventRinging_def
      constCallEventAccept_def constCallEventOffer_def constCallEventAnswer_def
      constCallEventIceCandidate_def)



lemma ParseUserId_UserId: "u \<noteq> 0 \<Longrightarrow> ParseUserId (UserId u) = u"
  using Uid_UnmarshalText_MarshalText [of u 0]
  by (simp add: ParseUserId_def UserId_def PrefixId_def Uid_IsZero_def HasPrefix_def Uid_String_def)

lemma liveTopic_call:
  "currentCall liveTopic = Some \<lparr>parties = [(Some 1, \<lparr>party_uid = 1, isOriginator = True\<rparr>)], call_seq = 7\<rparr>"
  "callEstablishmentTimer liveTopic = Armed 15"
  "perUser liveTopic = [1, 2]"
  by (simp_all add: liveTopic_def handleCallInvite_def idleTopic_def topicEnv0_def addEffects_def
      constCallEstablishmentTimeout_def inviteFrom_def)

lemma liveTopic_originator: "getCallOriginator liveTopic = (1, Some 1)"
  by (simp add: getCallOriginator_def liveTopic_call)

section \<open>Properties of account creation\<close>






lemma replyCreateUser_Create_fails:
  assumes "\<not> (acc_Login (Acc msg) \<and> (\<not> Uid_IsZero (sess_uid (w_sess w)) \<or> rec \<noteq> None))"
    and "GetLogicalAuthHandler env (acc_Scheme (Acc msg)) = Some authhdl"
    and "fst (IsUnique authhdl (acc_Secret (Acc msg)) (w_db w))"
    and "normalizeTags env (acc_Tags (Acc msg)) = []
         \<or> restrictedTagsEqual env (normalizeTags env (acc_Tags (Acc msg))) [] (immutableTagNS env)"
    and "preCheckCreds g (normalizeCredentials g (acc_Cred (Acc msg)) True) = Inr None"
    and "Users_Create env
           (fst (applyDesc env (acc_Desc (Acc msg)) (newUser env (normalizeTags env (acc_Tags (Acc msg))))))
           (snd (applyDesc env (acc_Desc (Acc msg)) (newUser env (normalizeTags env (acc_Tags (Acc msg))))))
           (w_db w) = ((user, Some err), dc)"
  shows "replyCreateUser env g store msg rec w
     = Inr (w\<lparr>w_db := dc, w_queueOut := w_queueOut w @ [ErrUnknownReply (msg_id msg) (msg_timestamp msg)]\<rparr>)"
  using assms
  by (auto simp add: replyCreateUser_def Let_def reply_def split: prod.splits)






section \<open>Claims about identifiers and access modes\<close>

text \<open>
  Claim C1. For every Uid \<open>u\<close>, formatting and parsing give \<open>u\<close> back:
  \<open>ParseUid (u.String())\<close> is \<open>u\<close> for every \<open>u\<close> (the zero Uid formats to the empty
  string, which \<open>UnmarshalText\<close> rejects, leaving the zero receiver of \<open>ParseUid\<close>), and for
  every non-zero \<open>u\<close> \<open>UnmarshalText\<close> of \<open>MarshalText u\<close> succeeds with \<open>u\<close> whatever the
  receiver held. A string is rejected, the receiver unchanged, unless it has 11 characters
  and, padded with \<open>=\<close>, decodes to exactly 8 bytes. For non-zero distinct \<open>a\<close> and \<open>b\<close> the
  P2P name does not depend on the order of the two ids and \<open>ParseP2P\<close> returns the pair,
  smaller id first, without an error; the P2P name of a user with itself is empty.
\<close>

theorem Uid_text_codec_and_P2P_names:
  "ParseUid (Uid_String u) = u
   \<and> (u \<noteq> 0 \<longrightarrow> Uid_UnmarshalText r (fst (Uid_MarshalText u)) = (u, None))
   \<and> ((length s \<noteq> 11 \<or> length (fst (Decode (s @ [CHR ''='']))) \<noteq> 8) \<longrightarrow>
        fst (Uid_UnmarshalText r s) = r \<and> snd (Uid_UnmarshalText r s) \<noteq> None)
   \<and> (a \<noteq> 0 \<and> b \<noteq> 0 \<and> a \<noteq> b \<longrightarrow>
        P2PName a b = P2PName b a \<and> ParseP2P (P2PName a b) = (min a b, max a b, None))
   \<and> P2PName a a = []"
proof -
  have rej: "fst (Uid_UnmarshalText r s) = r \<and> snd (Uid_UnmarshalText r s) \<noteq> None"
    if "length s \<noteq> 11 \<or> length (fst (Decode (s @ [CHR ''='']))) \<noteq> 8"
  proof -
    from that have "snd (Uid_UnmarshalText r s) \<noteq> None"
      by (simp add: Uid_UnmarshalText_accepts_iff)
    then show ?thesis
      by (simp add: Uid_UnmarshalText_rejects_keeps)
  qed
  have p2p: "P2PName a b = P2PName b a \<and> ParseP2P (P2PName a b) = (min a b, max a b, None)"
    if "a \<noteq> 0 \<and> b \<noteq> 0 \<and> a \<noteq> b"
    using that by (intro P2P_roundtrip) simp_all
  show ?thesis
  proof (intro conjI impI)
    show "ParseUid (Uid_String u) = u" by (rule ParseUid_String)
    show "Uid_UnmarshalText r (fst (Uid_MarshalText u)) = (u, None)" if "u \<noteq> 0"
      using that by (rule Uid_UnmarshalText_MarshalText)
    show "fst (Uid_UnmarshalText r s) = r"
      if "length s \<noteq> 11 \<or> length (fst (Decode (s @ [CHR ''='']))) \<noteq> 8"
      using rej [OF that] by (rule conjunct1)
    show "snd (Uid_UnmarshalText r s) \<noteq> None"
      if "length s \<noteq> 11 \<or> length (fst (Decode (s @ [CHR ''='']))) \<noteq> 8"
      using rej [OF that] by (rule conjunct2)
    show "P2PName a b = P2PName b a" if "a \<noteq> 0 \<and> b \<noteq> 0 \<and> a \<noteq> b"
      using p2p [OF that] by (rule conjunct1)
    show "ParseP2P (P2PName a b) = (min a b, max a b, None)" if "a \<noteq> 0 \<and> b \<noteq> 0 \<and> a \<noteq> b"
      using p2p [OF that] by (rule conjunct2)
    show "P2PName a a = []" by (rule P2PName_self)
  qed
qed

theorem Uid_text_codec_and_P2P_names_witness:
  "ParseUid (Uid_String 1) = 1
   \<and> Uid_UnmarshalText 0 (fst (Uid_MarshalText 1)) = (1, None)
   \<and> fst (Uid_UnmarshalText 7 ''usr'') = 7 \<and> snd (Uid_UnmarshalText 7 ''usr'') \<noteq> None
   \<and> P2PName 1 2 = P2PName 2 1 \<and> ParseP2P (P2PName 1 2) = (1, 2, None)
   \<and> P2PName 1 1 = []"
proof -
  have h1: "(1 :: Uid) \<noteq> 0" by simp
  have h2: "length ''usr'' \<noteq> 11 \<or> length (fst (Decode (''usr'' @ [CHR ''='']))) \<noteq> 8" by simp
  have h3: "(1 :: Uid) \<noteq> 0 \<and> (2 :: Uid) \<noteq> 0 \<and> (1 :: Uid) \<noteq> 2" by simp
  have m: "min (1 :: Uid) 2 = 1" "max (1 :: Uid) 2 = 2" by simp_all
  note t = Uid_text_codec_and_P2P_names [of 1 0 "''usr''" 1 2]
  note t7 = Uid_text_codec_and_P2P_names [of 1 7 "''usr''" 1 2]
  note t' = Uid_text_codec_and_P2P_names [of 1 0 "''usr''" 1 1]
  from t have a: "ParseUid (Uid_String 1) = 1" by (rule conjunct1)
  from t h1 have b: "Uid_UnmarshalText 0 (fst (Uid_MarshalText 1)) = (1, None)" by blast
  from t7 h2 have c: "fst (Uid_UnmarshalText 7 ''usr'') = 7 \<and> snd (Uid_UnmarshalText 7 ''usr'') \<noteq> None"
    by blast
  from t h3 have d: "P2PName 1 2 = P2PName 2 1 \<and> ParseP2P (P2PName 1 2) = (min 1 2, max 1 2, None)"
    by blast
  from t' have e: "P2PName 1 1 = []" by blast
  show ?thesis
    using a b c d [unfolded m] e by blast
qed

lemma length_Uid_String: "length (Uid_String u) = (if u = 0 then 0 else 11)"
proof (cases "u = 0")
  case True
  then show ?thesis by (simp add: Uid_String_def Uid_MarshalText_def)
next
  case False
  then have "Uid_String u = take uidBase64Unpadded (Encode (PutUint64 u))"
    by (simp add: Uid_String_def Uid_MarshalText_def)
  then have "length (Uid_String u) = uidBase64Unpadded"
    by (simp only: length_Encode_uid)
  with False show ?thesis by (simp add: uidBase64Unpadded_def)
qed

text \<open>
  Claim C10. For the zero Uid \<open>MarshalText\<close> and \<open>String\<close> return the empty string, and so do
  \<open>PrefixId\<close>, \<open>UserId\<close> and \<open>FndName\<close>; the text of a Uid has 11 characters, and its prefixed
  forms 14, exactly when the Uid is not zero.
\<close>

theorem zero_Uid_has_empty_text:
  "Uid_MarshalText 0 = ([], None) \<and> Uid_String 0 = [] \<and> PrefixId 0 prefix = []
   \<and> UserId 0 = [] \<and> FndName 0 = []
   \<and> length (Uid_String u) = (if u = 0 then 0 else 11)
   \<and> UserId u = (if u = 0 then [] else ''usr'' @ Uid_String u)
   \<and> FndName u = (if u = 0 then [] else ''fnd'' @ Uid_String u)
   \<and> length (UserId u) = (if u = 0 then 0 else 14)
   \<and> length (FndName u) = (if u = 0 then 0 else 14)"
proof -
  have z: "Uid_MarshalText 0 = ([], None)" "Uid_String 0 = []"
    by (simp_all add: Uid_String_def Uid_MarshalText_def)
  show ?thesis
    by (simp add: z length_Uid_String UserId_def FndName_def PrefixId_def Uid_IsZero_def)
qed

lemma unmarshalModes_error_iff:
  "(\<exists>e. unmarshalModes b m0 = Inl e) \<longleftrightarrow> (\<exists>c\<in>set b. c \<notin> modeChars)"
  by (induction b arbitrary: m0) (auto simp add: modeChars_def)

text \<open>
  Claim C9. \<open>AccessMode.UnmarshalText\<close> leaves the receiver unchanged when the input is empty
  (no error) and when it holds a character outside \<open>JRWPASDON\<close> in either case (an error);
  it returns an error exactly when there is such a character; and the receiver changes only
  when every character of the input is accepted.
\<close>

theorem AccessMode_UnmarshalText_keeps_receiver:
  "(b = [] \<longrightarrow> AccessMode_UnmarshalText m b = (m, None))
   \<and> ((\<exists>c\<in>set b. c \<notin> modeChars) \<longrightarrow>
        fst (AccessMode_UnmarshalText m b) = m \<and> snd (AccessMode_UnmarshalText m b) \<noteq> None)
   \<and> ((snd (AccessMode_UnmarshalText m b) \<noteq> None) = (\<exists>c\<in>set b. c \<notin> modeChars))
   \<and> (fst (AccessMode_UnmarshalText m b) \<noteq> m \<longrightarrow> (\<forall>c\<in>set b. c \<in> modeChars))"
proof (cases "unmarshalModes b ModeUnset")
  case (Inl e)
  then have "\<exists>c\<in>set b. c \<notin> modeChars"
    using unmarshalModes_error_iff [of b ModeUnset] by auto
  moreover have "b \<noteq> []" using Inl by auto
  ultimately show ?thesis
    using Inl by (simp add: AccessMode_UnmarshalText_def)
next
  case (Inr m0)
  then have "\<not> (\<exists>c\<in>set b. c \<notin> modeChars)"
    using unmarshalModes_error_iff [of b ModeUnset] by auto
  moreover have "b = [] \<Longrightarrow> m0 = ModeUnset" using Inr by auto
  ultimately show ?thesis
    using Inr by (auto simp add: AccessMode_UnmarshalText_def)
qed

theorem AccessMode_UnmarshalText_keeps_receiver_witness:
  "AccessMode_UnmarshalText 3 [] = (3, None)
   \<and> fst (AccessMode_UnmarshalText 3 ''JX'') = 3 \<and> snd (AccessMode_UnmarshalText 3 ''JX'') \<noteq> None
   \<and> fst (AccessMode_UnmarshalText 3 ''N'') = 0"
proof -
  have x: "\<exists>c\<in>set ''JX''. c \<notin> modeChars"
    by (simp add: modeChars_def)
  have n: "fst (AccessMode_UnmarshalText 3 ''N'') = 0"
    by (simp add: AccessMode_UnmarshalText_def ModeUnset_def)
  show ?thesis
    using AccessMode_UnmarshalText_keeps_receiver [of "[]" 3]
      AccessMode_UnmarshalText_keeps_receiver [of "''JX''" 3] x n
    by simp
qed

text \<open>
  Claim C2, at the mode \<open>J\<close>: \<open>MarshalText\<close> gives \<open>J\<close>, and \<open>UnmarshalText\<close> of \<open>J\<close> stores
  \<open>0x101\<close>, the join bit together with \<open>ModeUnset\<close>, because the accumulator starts at
  \<open>ModeUnset\<close> and is stored unmasked. Parsing the text of a mode does not give the mode back.
\<close>

theorem AccessMode_parse_of_format_sets_ModeUnset:
  "AccessMode_MarshalText ModeJoin = (''J'', None)
   \<and> AccessMode_UnmarshalText ModeNone ''J'' = (0x101, None)
   \<and> fst (AccessMode_UnmarshalText ModeNone (fst (AccessMode_MarshalText ModeJoin))) \<noteq> ModeJoin"
  by (simp add: AccessMode_MarshalText_def AccessMode_UnmarshalText_def ModeJoin_def ModeInvalid_def
      ModeUnset_def ModeNone_def)

text \<open>The scenarios of the delta of two modes hold on the code.\<close>

lemma Delta_same: "Delta x x = []"
  by (simp add: Delta_def)

lemma Delta_examples:
  "Delta (ModeJoin OR ModeRead OR ModeWrite OR ModeShare) (ModeJoin OR ModeRead OR ModeWrite) = ''-S''"
  "Delta (ModeJoin OR ModeRead OR ModeWrite OR ModeShare) (ModeJoin OR ModeRead OR ModeWrite OR ModePres) = ''+P-S''"
  by (simp_all add: Delta_def AccessMode_String_def AccessMode_MarshalText_def ModeJoin_def ModeRead_def
      ModeWrite_def ModeShare_def ModePres_def ModeInvalid_def Let_def)



section \<open>Claims about the user cache\<close>

text \<open>
  Claim C5. The invariant of the user cache, an entry is present exactly when its topic count
  is positive, is preserved by every update \<open>userUpdater\<close> processes without a panic, as long
  as the 64-bit topic counters have room for the increments of the update. A membership add
  of an uncached user creates the entry with \<open>unread = -1\<close> and one topic, of a cached user
  increments the count; a membership remove decrements a count above one and deletes the entry
  whose count is one; an unregister of an uncached user and an unread update for an uncached
  user panic and create no entry.
\<close>

theorem userUpdater_keeps_cache_invariant:
  assumes "cache_inv (usersCache st)"
    and "topics_room (length (upd_uidList upd)) (usersCache st)"
  shows "(\<forall>st'. userUpdater_step g (Some upd) st = Continue st' \<longrightarrow> cache_inv (usersCache st'))
    \<and> (upd_pushRcpt upd = None \<and> upd_uidList upd = [u] \<and> upd_inc upd \<and> usersCache st u = None \<longrightarrow>
         userUpdater_step g (Some upd) st
           = Continue (st\<lparr>usersCache := (usersCache st)(u \<mapsto> \<lparr>unread = - 1, topics = 1\<rparr>)\<rparr>))
    \<and> (upd_pushRcpt upd = None \<and> upd_uidList upd = [u] \<and> upd_inc upd \<and> usersCache st u = Some e \<longrightarrow>
         userUpdater_step g (Some upd) st
           = Continue (st\<lparr>usersCache := (usersCache st)(u \<mapsto> e\<lparr>topics := topics e + 1\<rparr>)\<rparr>)
         \<and> sint (topics e + 1) = sint (topics e) + 1)
    \<and> (upd_pushRcpt upd = None \<and> upd_uidList upd = [u] \<and> \<not> upd_inc upd \<and> usersCache st u = Some e
         \<and> topics e \<noteq> 1 \<longrightarrow>
         userUpdater_step g (Some upd) st
           = Continue (st\<lparr>usersCache := (usersCache st)(u \<mapsto> e\<lparr>topics := topics e - 1\<rparr>)\<rparr>)
         \<and> sint (topics e - 1) = sint (topics e) - 1)
    \<and> (upd_pushRcpt upd = None \<and> upd_uidList upd = [u] \<and> \<not> upd_inc upd \<and> usersCache st u = Some e
         \<and> topics e = 1 \<longrightarrow>
         userUpdater_step g (Some upd) st = Continue (st\<lparr>usersCache := (usersCache st)(u := None)\<rparr>))
    \<and> (upd_pushRcpt upd = None \<and> upd_uidList upd = [u] \<and> \<not> upd_inc upd \<and> usersCache st u = None \<longrightarrow>
         userUpdater_step g (Some upd) st = Panic ''request to unregister user which has not been registered'')
    \<and> (upd_pushRcpt upd = None \<and> upd_uidList upd = [] \<and> usersCache st (upd_uid upd) = None \<longrightarrow>
         userUpdater_step g (Some upd) st
           = Panic ''attempt to update unread count for user who has not been loaded'')"
proof (intro conjI allI impI)
  fix st'
  assume "userUpdater_step g (Some upd) st = Continue st'"
  then show "cache_inv (usersCache st')"
    using assms by (rule userUpdater_step_inv)
next
  assume "upd_pushRcpt upd = None \<and> upd_uidList upd = [u] \<and> upd_inc upd \<and> usersCache st u = None"
  then show "userUpdater_step g (Some upd) st
      = Continue (st\<lparr>usersCache := (usersCache st)(u \<mapsto> \<lparr>unread = - 1, topics = 1\<rparr>)\<rparr>)"
    by (simp add: userUpdater_step_def membershipOne_add_new)
next
  assume a: "upd_pushRcpt upd = None \<and> upd_uidList upd = [u] \<and> upd_inc upd \<and> usersCache st u = Some e"
  then show "userUpdater_step g (Some upd) st
      = Continue (st\<lparr>usersCache := (usersCache st)(u \<mapsto> e\<lparr>topics := topics e + 1\<rparr>)\<rparr>)"
    by (simp add: userUpdater_step_def membershipOne_add_cached)
  have "sint (topics e) + int (length (upd_uidList upd)) < 2 ^ 63"
    using assms(2) a by (auto simp add: topics_room_def)
  then show "sint (topics e + 1) = sint (topics e) + 1"
    using a by (intro sint_incr) simp
next
  assume a: "upd_pushRcpt upd = None \<and> upd_uidList upd = [u] \<and> \<not> upd_inc upd \<and> usersCache st u = Some e
      \<and> topics e \<noteq> 1"
  have "0 <s topics e" using assms(1) a by (auto simp add: cache_inv_def)
  then have "0 < sint (topics e)" by (simp add: word_sless_alt)
  moreover have "sint (topics e) \<noteq> 1"
  proof
    assume "sint (topics e) = 1"
    then have "(of_int (sint (topics e)) :: int64) = of_int 1" by simp
    then have "topics e = 1" by simp
    with a show False by simp
  qed
  ultimately have gt: "1 <s topics e" by (simp add: word_sless_alt)
  then show "userUpdater_step g (Some upd) st
      = Continue (st\<lparr>usersCache := (usersCache st)(u \<mapsto> e\<lparr>topics := topics e - 1\<rparr>)\<rparr>)"
    using a by (simp add: userUpdater_step_def membershipOne_remove_many)
  show "sint (topics e - 1) = sint (topics e) - 1"
    using gt by (rule sint_decr)
next
  assume a: "upd_pushRcpt upd = None \<and> upd_uidList upd = [u] \<and> \<not> upd_inc upd \<and> usersCache st u = Some e
      \<and> topics e = 1"
  then have "\<not> 1 <s topics e" by (simp add: word_sless_alt)
  then show "userUpdater_step g (Some upd) st = Continue (st\<lparr>usersCache := (usersCache st)(u := None)\<rparr>)"
    using a by (simp add: userUpdater_step_def membershipOne_remove_last)
next
  assume "upd_pushRcpt upd = None \<and> upd_uidList upd = [u] \<and> \<not> upd_inc upd \<and> usersCache st u = None"
  then show "userUpdater_step g (Some upd) st = Panic ''request to unregister user which has not been registered''"
    by (simp add: userUpdater_step_def membershipOne_remove_uncached)
next
  assume "upd_pushRcpt upd = None \<and> upd_uidList upd = [] \<and> usersCache st (upd_uid upd) = None"
  then show "userUpdater_step g (Some upd) st
      = Panic ''attempt to update unread count for user who has not been loaded''"
    by (simp add: userUpdater_step_def unreadUpdater_uncached)
qed



lemma cache0_inv: "cache_inv (usersCache state0)"
  by (simp add: cache_inv_def state0_def cache0_def word_sless_alt)

lemma cache0_room: "topics_room (Suc 0) (usersCache state0)"
  by (simp add: topics_room_def state0_def cache0_def)

theorem userUpdater_keeps_cache_invariant_witness:
  "cache_inv (usersCache state0)
   \<and> userUpdater_step count5 (Some register2) state0
       = Continue (state0\<lparr>usersCache := (usersCache state0)(2 \<mapsto> \<lparr>unread = - 1, topics = 1\<rparr>)\<rparr>)
   \<and> cache_inv ((usersCache state0)(2 \<mapsto> \<lparr>unread = - 1, topics = 1\<rparr>))
   \<and> userUpdater_step count5 (Some unregister1) state0 = Continue (state0\<lparr>usersCache := (usersCache state0)(1 := None)\<rparr>)
   \<and> userUpdater_step count5 (Some unread2) state0
       = Panic ''attempt to update unread count for user who has not been loaded''"
proof -
  have r2: "topics_room (length (upd_uidList register2)) (usersCache state0)"
    using cache0_room by (simp add: register2_def)
  have r1: "topics_room (length (upd_uidList unregister1)) (usersCache state0)"
    using cache0_room by (simp add: unregister1_def)
  have r0: "topics_room (length (upd_uidList unread2)) (usersCache state0)"
    using topics_room_Suc [OF cache0_room] by (simp add: unread2_def)
  note a = userUpdater_keeps_cache_invariant [OF cache0_inv r2, of count5 2]
  note b = userUpdater_keeps_cache_invariant
    [OF cache0_inv r1, of count5 1 "\<lparr>unread = - 1, topics = 1\<rparr>"]
  note c = userUpdater_keeps_cache_invariant [OF cache0_inv r0, of count5]
  have h2: "upd_pushRcpt register2 = None \<and> upd_uidList register2 = [2] \<and> upd_inc register2
      \<and> usersCache state0 2 = None"
    by (simp add: register2_def state0_def cache0_def)
  have h1: "upd_pushRcpt unregister1 = None \<and> upd_uidList unregister1 = [1] \<and> \<not> upd_inc unregister1
      \<and> usersCache state0 1 = Some \<lparr>unread = - 1, topics = 1\<rparr> \<and> topics \<lparr>unread = - 1, topics = 1\<rparr> = 1"
    by (simp add: unregister1_def state0_def cache0_def)
  have h0: "upd_pushRcpt unread2 = None \<and> upd_uidList unread2 = [] \<and> usersCache state0 (upd_uid unread2) = None"
    by (simp add: unread2_def state0_def cache0_def)
  have s2: "userUpdater_step count5 (Some register2) state0
       = Continue (state0\<lparr>usersCache := (usersCache state0)(2 \<mapsto> \<lparr>unread = - 1, topics = 1\<rparr>)\<rparr>)"
    using a h2 by blast
  then have i2: "cache_inv (usersCache (state0\<lparr>usersCache := (usersCache state0)(2 \<mapsto> \<lparr>unread = - 1, topics = 1\<rparr>)\<rparr>))"
    using a by blast
  have s1: "userUpdater_step count5 (Some unregister1) state0 = Continue (state0\<lparr>usersCache := (usersCache state0)(1 := None)\<rparr>)"
    using b h1 by blast
  have s0: "userUpdater_step count5 (Some unread2) state0
       = Panic ''attempt to update unread count for user who has not been loaded''"
    using c h0 by blast
  show ?thesis
    using cache0_inv s2 i2 s1 s0 by simp
qed

text \<open>
  Claim C6, as stated, fails: with the cached count at \<open>-1\<close> and 5 unread messages in the
  store, a delta of 1 leaves the cached count at 5 (not 6) and an absolute update to 3 leaves
  it at 5 (not 3). The branch that loads the count does not apply the update.
\<close>

theorem unreadUpdater_not_loaded_drops_the_update:
  "unreadUpdater count5 1 1 True cache0 = Inr (5, cache0(1 \<mapsto> \<lparr>unread = 5, topics = 1\<rparr>))
   \<and> (5 :: int64) \<noteq> 5 + 1
   \<and> unreadUpdater count5 1 3 False cache0 = Inr (5, cache0(1 \<mapsto> \<lparr>unread = 5, topics = 1\<rparr>))
   \<and> (5 :: int64) \<noteq> 3"
  by (simp add: unreadUpdater_def cache0_def count5_def word_sless_alt)

text \<open>
  Claim C6, amended. For a cached user: when the cached unread count is negative the count is
  fetched with \<open>GetUnreadCount\<close> and stored as it is, the value of the update being dropped
  (when the fetch fails the cache is unchanged and \<open>-1\<close> is returned); when the cached count
  is not negative a delta update adds the supplied value and an absolute update stores it.
\<close>

theorem unreadUpdater_loads_or_applies:
  assumes "cache u = Some e"
  shows "(unread e <s 0 \<and> g u = (count, None) \<longrightarrow>
            unreadUpdater g u val inc cache = Inr (count, cache(u \<mapsto> e\<lparr>unread := count\<rparr>)))
    \<and> (unread e <s 0 \<and> g u = (count, Some err) \<longrightarrow>
            unreadUpdater g u val inc cache = Inr (- 1, cache))
    \<and> (\<not> unread e <s 0 \<and> inc \<longrightarrow>
            unreadUpdater g u val inc cache = Inr (unread e + val, cache(u \<mapsto> e\<lparr>unread := unread e + val\<rparr>)))
    \<and> (\<not> unread e <s 0 \<and> \<not> inc \<longrightarrow>
            unreadUpdater g u val inc cache = Inr (val, cache(u \<mapsto> e\<lparr>unread := val\<rparr>)))"
  using assms by (simp add: unreadUpdater_def)

theorem unreadUpdater_loads_or_applies_witness:
  "unreadUpdater count5 1 7 True cache0 = Inr (5, cache0(1 \<mapsto> \<lparr>unread = 5, topics = 1\<rparr>))
   \<and> unreadUpdater count5 1 7 True (cache0(1 \<mapsto> \<lparr>unread = 5, topics = 1\<rparr>))
       = Inr (12, cache0(1 \<mapsto> \<lparr>unread = 12, topics = 1\<rparr>))
   \<and> unreadUpdater count5 1 7 False (cache0(1 \<mapsto> \<lparr>unread = 5, topics = 1\<rparr>))
       = Inr (7, cache0(1 \<mapsto> \<lparr>unread = 7, topics = 1\<rparr>))"
proof -
  have c0: "cache0 1 = Some \<lparr>unread = - 1, topics = 1\<rparr>"
    by (simp add: cache0_def)
  have c1: "(cache0(1 \<mapsto> \<lparr>unread = 5, topics = 1\<rparr>)) 1 = Some \<lparr>unread = 5, topics = 1\<rparr>"
    by simp
  have neg: "unread \<lparr>unread = - 1, topics = 1\<rparr> <s 0 \<and> count5 1 = (5, None)"
    by (simp add: word_sless_alt count5_def)
  have pos: "\<not> unread \<lparr>unread = 5, topics = 1\<rparr> <s 0"
    by (simp add: word_sless_alt)
  show ?thesis
    using unreadUpdater_loads_or_applies
        [where cache = cache0 and u = 1 and e = "\<lparr>unread = - 1, topics = 1\<rparr>" and g = count5
          and count = 5 and val = 7 and inc = True] c0 neg
      unreadUpdater_loads_or_applies
        [where cache = "cache0(1 \<mapsto> \<lparr>unread = 5, topics = 1\<rparr>)" and u = 1
          and e = "\<lparr>unread = 5, topics = 1\<rparr>" and g = count5 and count = 5 and val = 7 and inc = True] c1
      unreadUpdater_loads_or_applies
        [where cache = "cache0(1 \<mapsto> \<lparr>unread = 5, topics = 1\<rparr>)" and u = 1
          and e = "\<lparr>unread = 5, topics = 1\<rparr>" and g = count5 and count = 5 and val = 7 and inc = False] c1
      pos
    by simp
qed

section \<open>Claims about credentials\<close>

text \<open>
  The count map of \<open>updateCreds\<close> is never made, so no count is ever stored: whenever the
  function returns without an error, the list of validated methods is empty.
\<close>

lemma indexMethods_nil: "indexMethods cs None = Inr m \<Longrightarrow> cs = [] \<and> m = None"
  by (cases cs) (auto simp add: mapAssign_def)

lemma checkCreds_nil:
  "checkCreds g user crs (None, a, r, db) = Inr (Inr (m', a', r', db')) \<Longrightarrow> m' = None"
proof (induction crs arbitrary: a r db)
  case Nil
  then show ?case by simp
next
  case (Cons cr crs)
  then show ?case
    by (auto simp add: mapAssign_def split: if_splits option.splits prod.splits)
qed

lemma updateCreds_never_reports_a_method:
  assumes "updateCreds g store user lvl creds db = Inr ((validated, None), db')"
  shows "validated = []"
proof -
  have v: "validatedMethods None = []" by (simp add: validatedMethods_def mapRange_def)
  show ?thesis
    using assms v
    by (auto simp add: updateCreds_def split: if_splits prod.splits option.splits sum.splits
        dest!: indexMethods_nil checkCreds_nil)
qed

text \<open>
  Claim C7, at a user with one validated \<open>email\<close> credential and one supplied credential with a
  response, and at a user with no validated credential whose supplied response passes
  \<open>Check\<close>: \<open>updateCreds\<close> panics on the first assignment to the \<^verbatim>\<open>nil\<close> count map instead of
  returning the methods whose count is at least one.
\<close>

theorem updateCreds_panics_on_nil_map:
  "updateCreds globals0 (storeWith (Some storedCred)) 1 LevelAuth [emailCred] ()
     = Inl ''assignment to entry in nil map''
   \<and> updateCreds globals0 (storeWith None) 1 LevelAuth [emailCred] ()
     = Inl ''assignment to entry in nil map''"
  by (simp add: updateCreds_def globals0_def storeWith_def storedCred_def emailCred_def
      emailValidator_def mapAssign_def mapRead_def)

text \<open>
  Claim C8, as stated, fails: when no active credential exists, \<open>Check\<close> of the \<open>tel\<close> validator
  returns the empty value with the error \<open>ErrNotFound\<close>, not with no error.
\<close>

theorem tel_Check_removed_credential_is_an_error:
  "tel_Check (storeWith None) telValidator 1 ''123456'' () = (([], Some (Store ErrNotFound)), ())
   \<and> tel_Check (storeWith None) telValidator 1 ''123456'' () \<noteq> (([], None), ())"
  by (simp add: tel_Check_def storeWith_def)

text \<open>
  Claim C8, amended. When the active credential exists, its retries do not exceed
  \<open>MaxRetries\<close> and the non-empty response equals the stored or the debug response, \<open>Check\<close>
  confirms the credential and returns its stored value with the error of \<open>ConfirmCred\<close>; when
  no active credential exists, it returns the empty value with \<open>ErrNotFound\<close> and leaves the
  store unchanged.
\<close>

theorem tel_Check_value_or_not_found:
  "(GetActiveCred store user validatorName db = (Some cred, None) \<and> \<not> MaxRetries v <s Retries cred
      \<and> resp \<noteq> [] \<and> (Resp cred = resp \<or> DebugResponse v = resp) \<longrightarrow>
      tel_Check store v user resp db
        = ((Value cred, fst (ConfirmCred store user validatorName db)),
           snd (ConfirmCred store user validatorName db)))
   \<and> (GetActiveCred store user validatorName db = (None, None) \<longrightarrow>
      tel_Check store v user resp db = (([], Some (Store ErrNotFound)), db))"
  by (auto simp add: tel_Check_def split: prod.splits)

theorem tel_Check_value_or_not_found_witness:
  "tel_Check (storeWith (Some storedCred)) telValidator 1 ''424242'' () = ((''a@example.com'', None), ())
   \<and> tel_Check (storeWith None) telValidator 1 ''424242'' () = (([], Some (Store ErrNotFound)), ())"
proof -
  have h1: "GetActiveCred (storeWith (Some storedCred)) 1 validatorName () = (Some storedCred, None)
      \<and> \<not> MaxRetries telValidator <s Retries storedCred \<and> ''424242'' \<noteq> []
      \<and> (Resp storedCred = ''424242'' \<or> DebugResponse telValidator = ''424242'')"
    by (simp add: storeWith_def storedCred_def telValidator_def word_sless_alt)
  have h2: "GetActiveCred (storeWith None) 1 validatorName () = (None, None)"
    by (simp add: storeWith_def)
  have c: "ConfirmCred (storeWith (Some storedCred)) 1 validatorName () = (None, ())"
    by (simp add: storeWith_def)
  have v: "Value storedCred = ''a@example.com''"
    by (simp add: storedCred_def)
  show ?thesis
    using tel_Check_value_or_not_found [of "storeWith (Some storedCred)" 1 "()" storedCred telValidator "''424242''"]
      tel_Check_value_or_not_found [of "storeWith None" 1 "()" storedCred telValidator "''424242''"]
      h1 h2 c v
    by simp
qed

section \<open>Claims about video calls\<close>

text \<open>
  Claim C4, as stated, fails for \<open>terminateCallInProgress\<close>: on a call whose originator has the
  zero Uid (here the call an invite of the zero Uid starts on an idle P2P topic) it drops the
  call and returns without stopping the establishment timer, which stays armed.
\<close>

theorem terminateCallInProgress_may_leave_timer_armed:
  "currentCall (handleCallInvite topicEnv0 (inviteFrom 1 []) 0 idleTopic)
     = Some \<lparr>parties = [(Some 1, \<lparr>party_uid = 0, isOriginator = True\<rparr>)], call_seq = 7\<rparr>
   \<and> currentCall (terminateCallInProgress topicEnv0 (handleCallInvite topicEnv0 (inviteFrom 1 []) 0 idleTopic)) = None
   \<and> callEstablishmentTimer
       (terminateCallInProgress topicEnv0 (handleCallInvite topicEnv0 (inviteFrom 1 []) 0 idleTopic))
     = Armed 15
   \<and> Armed 15 \<noteq> Stopped"
  by (simp add: handleCallInvite_def idleTopic_def inviteFrom_def topicEnv0_def terminateCallInProgress_def
      getCallOriginator_def addEffects_def constCallEstablishmentTimeout_def Uid_IsZero_def ZeroUid_def)

text \<open>
  Claim C4, amended. A topic holds at most one call (\<open>currentCall\<close> is one optional value, and
  an invite while a call is live changes neither the call nor the timer). After
  \<open>maybeEndCallInProgress\<close> or \<open>terminateCallInProgress\<close> returns, \<open>currentCall\<close> is \<^verbatim>\<open>nil\<close>.
  \<open>maybeEndCallInProgress\<close> has stopped the timer whenever a call was live, and so has
  \<open>terminateCallInProgress\<close> whenever the live call had an originator with a session and a
  non-zero Uid; on a call without such an originator \<open>terminateCallInProgress\<close> leaves the timer
  as it was, and with no live call neither function changes the topic. A hang-up event that
  \<open>handleCallEvent\<close> does not drop ends with \<open>currentCall\<close> \<^verbatim>\<open>nil\<close> and the timer stopped.
\<close>

theorem call_end_clears_call_and_stops_timer:
  "currentCall (maybeEndCallInProgress env from msg t) = None
   \<and> currentCall (terminateCallInProgress env t) = None
   \<and> (currentCall t \<noteq> None \<longrightarrow> callEstablishmentTimer (maybeEndCallInProgress env from msg t) = Stopped)
   \<and> (currentCall t \<noteq> None \<and> snd (getCallOriginator t) \<noteq> None \<and> fst (getCallOriginator t) \<noteq> 0 \<longrightarrow>
        callEstablishmentTimer (terminateCallInProgress env t) = Stopped)
   \<and> (currentCall t \<noteq> None \<and> (snd (getCallOriginator t) = None \<or> fst (getCallOriginator t) = 0) \<longrightarrow>
        callEstablishmentTimer (terminateCallInProgress env t) = callEstablishmentTimer t)
   \<and> (currentCall t = None \<longrightarrow>
        maybeEndCallInProgress env from msg t = t \<and> terminateCallInProgress env t = t)
   \<and> (currentCall t \<noteq> None \<longrightarrow>
        currentCall (handleCallInvite env msg asUid t) = currentCall t
        \<and> callEstablishmentTimer (handleCallInvite env msg asUid t) = callEstablishmentTimer t)
   \<and> (currentCall t \<noteq> None \<and> \<not> isInactive env t \<and> call_seq (the (currentCall t)) = note_SeqId (Note msg)
        \<and> ParseUserId (AsUser msg) \<in> set (perUser t) \<and> note_Event (Note msg) = constCallEventHangUp \<longrightarrow>
        currentCall (handleCallEvent env msg t) = None
        \<and> callEstablishmentTimer (handleCallEvent env msg t) = Stopped)"
proof (intro conjI impI)
  show "currentCall (maybeEndCallInProgress env from msg t) = None" by (rule maybeEnd_clears)
  show "currentCall (terminateCallInProgress env t) = None" by (rule terminate_clears)
next
  assume "currentCall t \<noteq> None"
  then show "callEstablishmentTimer (maybeEndCallInProgress env from msg t) = Stopped"
    using maybeEnd_call by auto
next
  assume a: "currentCall t \<noteq> None \<and> snd (getCallOriginator t) \<noteq> None \<and> fst (getCallOriginator t) \<noteq> 0"
  then obtain call u sess where "currentCall t = Some call" "getCallOriginator t = (u, Some sess)" "u \<noteq> 0"
    by (cases "getCallOriginator t") auto
  then show "callEstablishmentTimer (terminateCallInProgress env t) = Stopped"
    by (rule terminate_with_originator)
next
  assume a: "currentCall t \<noteq> None \<and> (snd (getCallOriginator t) = None \<or> fst (getCallOriginator t) = 0)"
  then obtain call where "currentCall t = Some call" by auto
  then show "callEstablishmentTimer (terminateCallInProgress env t) = callEstablishmentTimer t"
    using a by (intro terminate_without_originator) auto
next
  assume "currentCall t = None"
  then show "maybeEndCallInProgress env from msg t = t" "terminateCallInProgress env t = t"
    by (simp_all add: maybeEnd_no_call terminate_no_call)
next
  assume "currentCall t \<noteq> None"
  then show "currentCall (handleCallInvite env msg asUid t) = currentCall t"
    "callEstablishmentTimer (handleCallInvite env msg asUid t) = callEstablishmentTimer t"
    using invite_busy by auto
next
  assume a: "currentCall t \<noteq> None \<and> \<not> isInactive env t \<and> call_seq (the (currentCall t)) = note_SeqId (Note msg)
        \<and> ParseUserId (AsUser msg) \<in> set (perUser t) \<and> note_Event (Note msg) = constCallEventHangUp"
  then obtain cur where cur: "currentCall t = Some cur" by auto
  with a have "handleCallEvent env msg t = maybeEndCallInProgress env (AsUser msg) msg t"
    by (intro hangup_event) auto
  then show "currentCall (handleCallEvent env msg t) = None"
    "callEstablishmentTimer (handleCallEvent env msg t) = Stopped"
    using maybeEnd_call [OF cur] by simp_all
qed


theorem call_end_clears_call_and_stops_timer_witness:
  "currentCall (maybeEndCallInProgress topicEnv0 (UserId 2) (hangupFrom 2 (UserId 2)) liveTopic) = None
   \<and> callEstablishmentTimer (maybeEndCallInProgress topicEnv0 (UserId 2) (hangupFrom 2 (UserId 2)) liveTopic) = Stopped
   \<and> currentCall (terminateCallInProgress topicEnv0 liveTopic) = None
   \<and> callEstablishmentTimer (terminateCallInProgress topicEnv0 liveTopic) = Stopped
   \<and> currentCall (handleCallInvite topicEnv0 (hangupFrom 2 (UserId 2)) 2 liveTopic) = currentCall liveTopic
   \<and> currentCall (handleCallEvent topicEnv0 (hangupFrom 2 (UserId 2)) liveTopic) = None
   \<and> callEstablishmentTimer (handleCallEvent topicEnv0 (hangupFrom 2 (UserId 2)) liveTopic) = Stopped"
proof -
  have h1: "currentCall liveTopic \<noteq> None" by (simp add: liveTopic_call)
  have h2: "currentCall liveTopic \<noteq> None \<and> snd (getCallOriginator liveTopic) \<noteq> None
      \<and> fst (getCallOriginator liveTopic) \<noteq> 0"
    by (simp add: liveTopic_call liveTopic_originator)
  have p: "ParseUserId (UserId 2) = 2" by (rule ParseUserId_UserId) simp
  have h3: "currentCall liveTopic \<noteq> None \<and> \<not> isInactive topicEnv0 liveTopic
      \<and> call_seq (the (currentCall liveTopic)) = note_SeqId (Note (hangupFrom 2 (UserId 2)))
      \<and> ParseUserId (AsUser (hangupFrom 2 (UserId 2))) \<in> set (perUser liveTopic)
      \<and> note_Event (Note (hangupFrom 2 (UserId 2))) = constCallEventHangUp"
    by (simp add: liveTopic_call hangupFrom_def topicEnv0_def p)
  note t = call_end_clears_call_and_stops_timer
    [of topicEnv0 "UserId 2" "hangupFrom 2 (UserId 2)" liveTopic 2]
  show ?thesis
    using t h1 h2 h3 by blast
qed

section \<open>Claims about account creation\<close>



lemma createUser_succeeds:
  "replyCreateUser (accountEnv0 None) globals0 (storeWith None) createMsg None world0
     = Inr (world0\<lparr>w_db := {1},
                    w_queueOut :=
                      [NoErrCreatedReply ''1'' 0
                         [(''user'', PString (UserId 1)), (''authlvl'', PString ''auth''),
                          (''desc'', PDesc \<lparr>td_CreatedAt = 0, td_UpdatedAt = 0,
                                           td_DefaultAcs = \<lparr>acs_Auth = ''JRWPA'', acs_Anon = ''N''\<rparr>,
                                           td_Public = None, td_Private = None\<rparr>)]],
                    w_pluginAccount := [(demoUser, plgActCreate)]\<rparr>)"
  by (simp add: replyCreateUser_def afterCreate_def accountEnv0_def globals0_def storeWith_def createMsg_def
      world0_def basicHandler_def emailCred_def emailValidator_def applyDesc_def newUser_def newAuthRec_def
      tmpTokenRec_def addCreds_def reply_def demoUser_def Uid_IsZero_def AccessMode_String_def
      AccessMode_MarshalText_def ModeCP2P_def ModeNone_def ModeJoin_def ModeRead_def ModeWrite_def
      ModePres_def ModeApprove_def ModeInvalid_def)

end
